theory Spec2Isabelle
  imports Main "HOL-Library.Word"
begin

section \<open>Python values\<close>

text \<open>
  A Python string is a sequence of code points. A literal of the source is written with
  \<open>lit\<close>, which gives the code points of its characters.
\<close>

type_synonym pystr = "nat list"

definition lit :: "string \<Rightarrow> pystr" where
  "lit s = map of_char s"

text \<open>
  A Python float is a C double: the 64 bits of its IEEE 754 encoding. The predicates and
  constants below are those the tools and \<^verbatim>\<open>json\<close> need: the tests for a NaN and for a
  zero of either sign, the two infinities, and the NaN of \<^verbatim>\<open>float('nan')\<close>.
\<close>

type_synonym pyfloat = "64 word"

definition float_is_nan :: "pyfloat \<Rightarrow> bool" where
  "float_is_nan x = (0x7FF0000000000000 < unat x mod 0x8000000000000000)"

definition float_is_zero :: "pyfloat \<Rightarrow> bool" where
  "float_is_zero x = (unat x mod 0x8000000000000000 = 0)"

definition float_inf :: pyfloat where
  "float_inf = 0x7FF0000000000000"

definition float_neg_inf :: pyfloat where
  "float_neg_inf = 0xFFF0000000000000"

definition float_nan :: pyfloat where
  "float_nan = 0x7FF8000000000000"

text \<open>
  The values the ad-set tools of \<^verbatim>\<open>meta_ads_mcp/core/adsets.py\<close> handle: \<^verbatim>\<open>None\<close>,
  booleans, integers, floats, strings, lists, tuples, and dictionaries with string keys.
  A dictionary is an association list in insertion order, as Python iterates it; its keys
  are distinct.
\<close>

datatype pyval =
    PNone
  | PBool bool
  | PInt int
  | PFloat pyfloat
  | PStr pystr
  | PList "pyval list"
  | PTuple "pyval list"
  | PDict "(pystr \<times> pyval) list"

text \<open>Truth value testing: \<^verbatim>\<open>if x:\<close> and \<^verbatim>\<open>if not x:\<close>.\<close>

fun py_truthy :: "pyval \<Rightarrow> bool" where
  "py_truthy PNone = False"
| "py_truthy (PBool b) = b"
| "py_truthy (PInt i) = (i \<noteq> 0)"
| "py_truthy (PFloat x) = (\<not> float_is_zero x)"
| "py_truthy (PStr s) = (s \<noteq> [])"
| "py_truthy (PList xs) = (xs \<noteq> [])"
| "py_truthy (PTuple xs) = (xs \<noteq> [])"
| "py_truthy (PDict d) = (d \<noteq> [])"

text \<open>\<^verbatim>\<open>d[k] = v\<close>: an existing key keeps its position, a new key goes last.\<close>

fun dict_set :: "(pystr \<times> pyval) list \<Rightarrow> pystr \<Rightarrow> pyval \<Rightarrow> (pystr \<times> pyval) list" where
  "dict_set [] k v = [(k, v)]"
| "dict_set ((k', v') # d) k v = (if k' = k then (k, v) # d else (k', v') # dict_set d k v)"

definition dict_keys :: "(pystr \<times> pyval) list \<Rightarrow> pystr list" where
  "dict_keys d = map fst d"

definition dict_get :: "(pystr \<times> pyval) list \<Rightarrow> pystr \<Rightarrow> pyval option" where
  "dict_get d k = map_of d k"

text \<open>\<^verbatim>\<open>dict(pairs)\<close>: the pairs are stored one after the other.\<close>

definition dict_of_pairs :: "(pystr \<times> pyval) list \<Rightarrow> (pystr \<times> pyval) list" where
  "dict_of_pairs ps = foldl (\<lambda>d (k, v). dict_set d k v) [] ps"

subsection \<open>The interpreter's own conversions\<close>

text \<open>
  Three functions of the interpreter are taken as parameters: \<^verbatim>\<open>float.__repr__\<close> on a
  finite float, \<^verbatim>\<open>float(s)\<close> on the text of a JSON number, and the test of the Unicode
  database for a printable character, which \<^verbatim>\<open>repr\<close> asks for a character beyond ASCII.
  The interpreter's limits on resources (the recursion depth, the number of digits of an
  integer it converts to or from text) are not part of these definitions.
\<close>

record runtime =
  float_repr :: "pyfloat \<Rightarrow> pystr"
  float_of_str :: "pystr \<Rightarrow> pyfloat"
  isprintable :: "nat \<Rightarrow> bool"

subsection \<open>Characters and numerals\<close>

definition dquote :: nat where "dquote = 0x22"
definition squote :: nat where "squote = 0x27"
definition backslash :: nat where "backslash = 0x5C"
definition newline :: nat where "newline = 0x0A"
definition carriage_return :: nat where "carriage_return = 0x0D"
definition tab :: nat where "tab = 0x09"
definition backspace :: nat where "backspace = 0x08"
definition formfeed :: nat where "formfeed = 0x0C"
definition space :: nat where "space = 0x20"

text \<open>The digit of a value below 16, in lower case: \<^verbatim>\<open>0123456789abcdef\<close>.\<close>

definition digit_char :: "nat \<Rightarrow> nat" where
  "digit_char d = (let m = d mod 16 in if m < 10 then 48 + m else 87 + m)"

text \<open>\<^verbatim>\<open>str(n)\<close> of a non-negative integer: its decimal digits.\<close>

function str_nat :: "nat \<Rightarrow> pystr" where
  "str_nat n = (if n < 10 then [digit_char n] else str_nat (n div 10) @ [digit_char (n mod 10)])"
  by pat_completeness auto
termination
  by (relation "measure (\<lambda>n. n)") auto

declare str_nat.simps [simp del]

definition str_int :: "int \<Rightarrow> pystr" where
  "str_int i = (if i < 0 then 0x2D # str_nat (nat (- i)) else str_nat (nat i))"

text \<open>Lower-case hexadecimal digits: the formats \<^verbatim>\<open>02x\<close>, \<^verbatim>\<open>04x\<close> and \<^verbatim>\<open>08x\<close>.\<close>

definition hex2 :: "nat \<Rightarrow> pystr" where
  "hex2 n = [digit_char (n div 16), digit_char n]"

definition hex4 :: "nat \<Rightarrow> pystr" where
  "hex4 n = [digit_char (n div 4096), digit_char (n div 256), digit_char (n div 16), digit_char n]"

definition hex8 :: "nat \<Rightarrow> pystr" where
  "hex8 n = hex4 (n div 65536) @ hex4 n"

subsection \<open>\<^verbatim>\<open>str\<close> and \<^verbatim>\<open>repr\<close>\<close>

text \<open>
  \<^verbatim>\<open>repr\<close> of a string picks the quote (double quotes when the string holds a single
  quote and no double quote), escapes the quote, the backslash, tab, newline and carriage
  return, and writes the other non-printable characters as \<^verbatim>\<open>\xNN\<close>, \<^verbatim>\<open>\uNNNN\<close> or
  \<^verbatim>\<open>\UNNNNNNNN\<close>.
\<close>

definition repr_char :: "runtime \<Rightarrow> nat \<Rightarrow> nat \<Rightarrow> pystr" where
  "repr_char rt q c =
     (if c = q \<or> c = backslash then [backslash, c]
      else if c = tab then backslash # lit ''t''
      else if c = newline then backslash # lit ''n''
      else if c = carriage_return then backslash # lit ''r''
      else if c < 0x20 \<or> c = 0x7F then backslash # lit ''x'' @ hex2 c
      else if c < 0x7F then [c]
      else if isprintable rt c then [c]
      else if c \<le> 0xFF then backslash # lit ''x'' @ hex2 c
      else if c \<le> 0xFFFF then backslash # lit ''u'' @ hex4 c
      else backslash # lit ''U'' @ hex8 c)"

definition repr_str :: "runtime \<Rightarrow> pystr \<Rightarrow> pystr" where
  "repr_str rt s =
     (let q = (if squote \<in> set s \<and> dquote \<notin> set s then dquote else squote)
      in q # concat (map (repr_char rt q) s) @ [q])"

text \<open>\<^verbatim>\<open>repr\<close> of a float: the three special values by name, a finite float by the
  interpreter's shortest text.\<close>

definition repr_float :: "runtime \<Rightarrow> pyfloat \<Rightarrow> pystr" where
  "repr_float rt x =
     (if float_is_nan x then lit ''nan''
      else if x = float_inf then lit ''inf''
      else if x = float_neg_inf then lit ''-inf''
      else float_repr rt x)"

fun py_repr :: "runtime \<Rightarrow> pyval \<Rightarrow> pystr"
  and repr_items :: "runtime \<Rightarrow> pyval list \<Rightarrow> pystr"
  and repr_pairs :: "runtime \<Rightarrow> (pystr \<times> pyval) list \<Rightarrow> pystr" where
  "py_repr rt PNone = lit ''None''"
| "py_repr rt (PBool b) = (if b then lit ''True'' else lit ''False'')"
| "py_repr rt (PInt i) = str_int i"
| "py_repr rt (PFloat x) = repr_float rt x"
| "py_repr rt (PStr s) = repr_str rt s"
| "py_repr rt (PList xs) = lit ''['' @ repr_items rt xs @ lit '']''"
| "py_repr rt (PTuple xs) =
     lit ''('' @ repr_items rt xs @ (if length xs = 1 then lit '','' else []) @ lit '')''"
| "py_repr rt (PDict d) = lit ''{'' @ repr_pairs rt d @ lit ''}''"
| "repr_items rt [] = []"
| "repr_items rt (x # xs) = py_repr rt x @ (if xs = [] then [] else lit '', '' @ repr_items rt xs)"
| "repr_pairs rt [] = []"
| "repr_pairs rt (p # ps) =
     repr_str rt (fst p) @ lit '': '' @ py_repr rt (snd p)
     @ (if ps = [] then [] else lit '', '' @ repr_pairs rt ps)"

text \<open>\<^verbatim>\<open>str(x)\<close>, also what an f-string writes for \<^verbatim>\<open>{x}\<close>.\<close>

fun py_str :: "runtime \<Rightarrow> pyval \<Rightarrow> pystr" where
  "py_str rt (PStr s) = s"
| "py_str rt v = py_repr rt v"

section \<open>The \<^verbatim>\<open>json\<close> module\<close>

subsection \<open>\<^verbatim>\<open>json.dumps\<close>\<close>

text \<open>
  Strings are written with \<^verbatim>\<open>ensure_ascii\<close>: the double quote, the backslash and the five
  short escapes have their two-character form, the characters from space to tilde are
  copied, every other character is written \<^verbatim>\<open>\uXXXX\<close>, as a pair of surrogates when it
  lies beyond \<^verbatim>\<open>0xFFFF\<close>. The halves \<^verbatim>\<open>0xd800 | ((n >> 10) & 0x3ff)\<close> and
  \<^verbatim>\<open>0xdc00 | (n & 0x3ff)\<close> are written here with \<open>div\<close> and \<open>mod\<close>.
\<close>

definition escape_char :: "nat \<Rightarrow> pystr" where
  "escape_char c =
     (if c = backslash then [backslash, backslash]
      else if c = dquote then [backslash, dquote]
      else if c = backspace then backslash # lit ''b''
      else if c = formfeed then backslash # lit ''f''
      else if c = newline then backslash # lit ''n''
      else if c = carriage_return then backslash # lit ''r''
      else if c = tab then backslash # lit ''t''
      else if 0x20 \<le> c \<and> c \<le> 0x7E then [c]
      else if c < 0x10000 then backslash # lit ''u'' @ hex4 c
      else (let n = c - 0x10000;
                s1 = 0xD800 + (n div 1024) mod 1024;
                s2 = 0xDC00 + n mod 1024
            in backslash # lit ''u'' @ hex4 s1 @ backslash # lit ''u'' @ hex4 s2))"

definition encode_basestring_ascii :: "pystr \<Rightarrow> pystr" where
  "encode_basestring_ascii s = dquote # concat (map escape_char s) @ [dquote]"

text \<open>A float: the three special values by the names JSON readers use, a finite
  float by \<^verbatim>\<open>float.__repr__\<close>.\<close>

definition floatstr :: "runtime \<Rightarrow> pyfloat \<Rightarrow> pystr" where
  "floatstr rt x =
     (if float_is_nan x then lit ''NaN''
      else if x = float_inf then lit ''Infinity''
      else if x = float_neg_inf then lit ''-Infinity''
      else float_repr rt x)"

text \<open>
  The encoder takes \<^verbatim>\<open>indent\<close> (\<open>None\<close> for the compact form) and the current nesting
  level. With an indent the items are separated by a comma and a new line indented to
  the level; without one by a comma and a space. The key separator is a colon and a
  space in both forms. A tuple is written as a list is.
\<close>

definition newline_indent :: "nat option \<Rightarrow> nat \<Rightarrow> pystr" where
  "newline_indent indent level =
     (case indent of None \<Rightarrow> [] | Some k \<Rightarrow> newline # replicate (k * level) space)"

definition item_separator :: "nat option \<Rightarrow> pystr" where
  "item_separator indent = (case indent of None \<Rightarrow> lit '', '' | Some k \<Rightarrow> lit '','')"

fun iterencode :: "runtime \<Rightarrow> nat option \<Rightarrow> nat \<Rightarrow> pyval \<Rightarrow> pystr"
  and iterencode_list :: "runtime \<Rightarrow> nat option \<Rightarrow> nat \<Rightarrow> pyval list \<Rightarrow> pystr"
  and iterencode_dict :: "runtime \<Rightarrow> nat option \<Rightarrow> nat \<Rightarrow> (pystr \<times> pyval) list \<Rightarrow> pystr" where
  "iterencode rt indent level PNone = lit ''null''"
| "iterencode rt indent level (PBool b) = (if b then lit ''true'' else lit ''false'')"
| "iterencode rt indent level (PInt i) = str_int i"
| "iterencode rt indent level (PFloat x) = floatstr rt x"
| "iterencode rt indent level (PStr s) = encode_basestring_ascii s"
| "iterencode rt indent level (PList xs) =
     (if xs = [] then lit ''[]''
      else lit ''['' @ newline_indent indent (Suc level) @ iterencode_list rt indent (Suc level) xs
           @ newline_indent indent level @ lit '']'')"
| "iterencode rt indent level (PTuple xs) =
     (if xs = [] then lit ''[]''
      else lit ''['' @ newline_indent indent (Suc level) @ iterencode_list rt indent (Suc level) xs
           @ newline_indent indent level @ lit '']'')"
| "iterencode rt indent level (PDict d) =
     (if d = [] then lit ''{}''
      else lit ''{'' @ newline_indent indent (Suc level) @ iterencode_dict rt indent (Suc level) d
           @ newline_indent indent level @ lit ''}'')"
| "iterencode_list rt indent level [] = []"
| "iterencode_list rt indent level (x # xs) =
     iterencode rt indent level x
     @ (if xs = [] then []
        else item_separator indent @ newline_indent indent level
             @ iterencode_list rt indent level xs)"
| "iterencode_dict rt indent level [] = []"
| "iterencode_dict rt indent level (p # ps) =
     encode_basestring_ascii (fst p) @ lit '': '' @ iterencode rt indent level (snd p)
     @ (if ps = [] then []
        else item_separator indent @ newline_indent indent level
             @ iterencode_dict rt indent level ps)"

text \<open>\<^verbatim>\<open>json.dumps(obj)\<close> and \<^verbatim>\<open>json.dumps(obj, indent=k)\<close>.\<close>

definition json_dumps :: "runtime \<Rightarrow> pyval \<Rightarrow> pystr" where
  "json_dumps rt obj = iterencode rt None 0 obj"

definition json_dumps_indent :: "runtime \<Rightarrow> nat \<Rightarrow> pyval \<Rightarrow> pystr" where
  "json_dumps_indent rt k obj = iterencode rt (Some k) 0 obj"

subsection \<open>\<^verbatim>\<open>json.loads\<close>\<close>

definition is_ws :: "nat \<Rightarrow> bool" where
  "is_ws c = (c = space \<or> c = tab \<or> c = newline \<or> c = carriage_return)"

definition skip_ws :: "pystr \<Rightarrow> pystr" where
  "skip_ws s = dropWhile is_ws s"

definition is_digit :: "nat \<Rightarrow> bool" where
  "is_digit c = (48 \<le> c \<and> c \<le> 57)"

definition digit_val :: "nat \<Rightarrow> nat" where
  "digit_val c = c - 48"

definition nat_of_digits :: "pystr \<Rightarrow> nat" where
  "nat_of_digits ds = foldl (\<lambda>a c. 10 * a + digit_val c) 0 ds"

text \<open>The value of a hexadecimal digit of either case.\<close>

definition hex_val :: "nat \<Rightarrow> nat option" where
  "hex_val c =
     (if 48 \<le> c \<and> c \<le> 57 then Some (c - 48)
      else if 97 \<le> c \<and> c \<le> 102 then Some (c - 87)
      else if 65 \<le> c \<and> c \<le> 70 then Some (c - 55)
      else None)"

text \<open>The four hexadecimal digits after \<^verbatim>\<open>\u\<close>.\<close>

definition decode_uXXXX :: "pystr \<Rightarrow> nat option" where
  "decode_uXXXX s =
     (case s of
        a # b # c # d # _ \<Rightarrow>
          (case (hex_val a, hex_val b, hex_val c, hex_val d) of
             (Some h3, Some h2, Some h1, Some h0) \<Rightarrow> Some (((h3 * 16 + h2) * 16 + h1) * 16 + h0)
           | _ \<Rightarrow> None)
      | _ \<Rightarrow> None)"

text \<open>The table \<^verbatim>\<open>BACKSLASH\<close> of the one-character escapes.\<close>

definition backslash_escape :: "nat \<Rightarrow> nat option" where
  "backslash_escape e =
     (if e = dquote then Some dquote
      else if e = backslash then Some backslash
      else if e = 0x2F then Some 0x2F
      else if e = 0x62 then Some backspace
      else if e = 0x66 then Some formfeed
      else if e = 0x6E then Some newline
      else if e = 0x72 then Some carriage_return
      else if e = 0x74 then Some tab
      else None)"

text \<open>
  \<^verbatim>\<open>scanstring\<close> reads a string body, from after the opening quote to the closing one:
  the decoded string and the rest of the input. In strict mode a raw control character
  ends the scan with an error. A \<^verbatim>\<open>\uXXXX\<close> escape of a high surrogate that is followed
  by a \<^verbatim>\<open>\uXXXX\<close> escape of a low surrogate is read with it as one code point,
  \<^verbatim>\<open>0x10000 + (((uni - 0xd800) << 10) | (uni2 - 0xdc00))\<close>.
\<close>

fun scanstring :: "pystr \<Rightarrow> (pystr \<times> pystr) option" where
  "scanstring [] = None"
| "scanstring (c # cs) =
     (if c = dquote then Some ([], cs)
      else if c = backslash then
        (case cs of
           [] \<Rightarrow> None
         | e # r \<Rightarrow>
             if e = 0x75 then
               (case decode_uXXXX r of
                  None \<Rightarrow> None
                | Some uni \<Rightarrow>
                    if 0xD800 \<le> uni \<and> uni \<le> 0xDBFF \<and> take 2 (drop 4 r) = [backslash, 0x75] then
                      (case decode_uXXXX (drop 6 r) of
                         None \<Rightarrow> None
                       | Some uni2 \<Rightarrow>
                           if 0xDC00 \<le> uni2 \<and> uni2 \<le> 0xDFFF then
                             (case scanstring (drop 10 r) of
                                None \<Rightarrow> None
                              | Some (str, rest) \<Rightarrow>
                                  Some ((0x10000 + ((uni - 0xD800) * 1024 + (uni2 - 0xDC00)))
                                        # str, rest))
                           else
                             (case scanstring (drop 4 r) of
                                None \<Rightarrow> None
                              | Some (str, rest) \<Rightarrow> Some (uni # str, rest)))
                    else
                      (case scanstring (drop 4 r) of
                         None \<Rightarrow> None
                       | Some (str, rest) \<Rightarrow> Some (uni # str, rest)))
             else
               (case backslash_escape e of
                  None \<Rightarrow> None
                | Some ch \<Rightarrow>
                    (case scanstring r of
                       None \<Rightarrow> None
                     | Some (str, rest) \<Rightarrow> Some (ch # str, rest))))
      else if c < 0x20 then None
      else (case scanstring cs of
              None \<Rightarrow> None
            | Some (str, rest) \<Rightarrow> Some (c # str, rest)))"

text \<open>
  \<^verbatim>\<open>NUMBER_RE\<close>: an optional minus sign, then a single zero or a non-zero digit with the
  digits that follow; then an optional fraction (a point and digits) and an optional
  exponent (\<^verbatim>\<open>e\<close> or \<^verbatim>\<open>E\<close>, an optional sign, digits). Each part gives the text it
  matched and the rest of the input.
\<close>

definition match_integer :: "pystr \<Rightarrow> (pystr \<times> pystr) option" where
  "match_integer s =
     (case s of
        [] \<Rightarrow> None
      | d # r \<Rightarrow>
          if d = 0x30 then Some ([d], r)
          else if is_digit d then Some (d # takeWhile is_digit r, dropWhile is_digit r)
          else None)"

definition match_frac :: "pystr \<Rightarrow> pystr \<times> pystr" where
  "match_frac s =
     (case s of
        c # d # r \<Rightarrow>
          if c = 0x2E \<and> is_digit d then (c # d # takeWhile is_digit r, dropWhile is_digit r)
          else ([], s)
      | _ \<Rightarrow> ([], s))"

definition match_exp :: "pystr \<Rightarrow> pystr \<times> pystr" where
  "match_exp s =
     (case s of
        c # d # r \<Rightarrow>
          if c = 0x65 \<or> c = 0x45 then
            (if is_digit d then (c # d # takeWhile is_digit r, dropWhile is_digit r)
             else if d = 0x2B \<or> d = 0x2D then
               (case r of
                  d' # r' \<Rightarrow>
                    if is_digit d'
                    then (c # d # d' # takeWhile is_digit r', dropWhile is_digit r')
                    else ([], s)
                | [] \<Rightarrow> ([], s))
             else ([], s))
          else ([], s)
      | _ \<Rightarrow> ([], s))"

text \<open>
  A match without fraction and exponent is an integer, read by \<^verbatim>\<open>int\<close>; any other match
  is a float, whose text is handed to \<^verbatim>\<open>float\<close>.
\<close>

datatype number = IntLit int | FloatLit pystr

definition match_number :: "pystr \<Rightarrow> (number \<times> pystr) option" where
  "match_number s =
     (let neg = (case s of [] \<Rightarrow> False | c # _ \<Rightarrow> c = 0x2D)
      in case match_integer (if neg then tl s else s) of
           None \<Rightarrow> None
         | Some (ds, r1) \<Rightarrow>
             (let (frac, r2) = match_frac r1;
                  (ex, r3) = match_exp r2
              in if frac = [] \<and> ex = []
                 then Some (IntLit (if neg then - int (nat_of_digits ds)
                                    else int (nat_of_digits ds)), r3)
                 else Some (FloatLit ((if neg then [0x2D] else []) @ ds @ frac @ ex), r3)))"

text \<open>
  \<^verbatim>\<open>scan_once\<close>, with the array and the object loops. The first argument bounds the
  number of nested calls; \<open>json_loads\<close> starts it above what an input of its length
  can need.
\<close>

fun scan_once :: "runtime \<Rightarrow> nat \<Rightarrow> pystr \<Rightarrow> (pyval \<times> pystr) option"
  and parse_array :: "runtime \<Rightarrow> nat \<Rightarrow> pystr \<Rightarrow> (pyval list \<times> pystr) option"
  and parse_object :: "runtime \<Rightarrow> nat \<Rightarrow> pystr \<Rightarrow> ((pystr \<times> pyval) list \<times> pystr) option" where
  "scan_once rt 0 s = None"
| "scan_once rt (Suc n) s =
     (case s of
        [] \<Rightarrow> None
      | c # cs \<Rightarrow>
          if c = dquote then
            (case scanstring cs of None \<Rightarrow> None | Some (str, r) \<Rightarrow> Some (PStr str, r))
          else if c = 0x7B then
            (case skip_ws cs of
               [] \<Rightarrow> None
             | c' # r \<Rightarrow>
                 if c' = 0x7D then Some (PDict [], r)
                 else (case parse_object rt n (c' # r) of
                         None \<Rightarrow> None
                       | Some (ps, r') \<Rightarrow> Some (PDict (dict_of_pairs ps), r')))
          else if c = 0x5B then
            (case skip_ws cs of
               [] \<Rightarrow> None
             | c' # r \<Rightarrow>
                 if c' = 0x5D then Some (PList [], r)
                 else (case parse_array rt n (c' # r) of
                         None \<Rightarrow> None
                       | Some (xs, r') \<Rightarrow> Some (PList xs, r')))
          else if take 4 s = lit ''null'' then Some (PNone, drop 4 s)
          else if take 4 s = lit ''true'' then Some (PBool True, drop 4 s)
          else if take 5 s = lit ''false'' then Some (PBool False, drop 5 s)
          else if take 3 s = lit ''NaN'' then Some (PFloat float_nan, drop 3 s)
          else if take 8 s = lit ''Infinity'' then Some (PFloat float_inf, drop 8 s)
          else if take 9 s = lit ''-Infinity'' then Some (PFloat float_neg_inf, drop 9 s)
          else (case match_number s of
                  None \<Rightarrow> None
                | Some (IntLit i, r) \<Rightarrow> Some (PInt i, r)
                | Some (FloatLit text, r) \<Rightarrow> Some (PFloat (float_of_str rt text), r)))"
| "parse_array rt 0 s = None"
| "parse_array rt (Suc n) s =
     (case scan_once rt n s of
        None \<Rightarrow> None
      | Some (v, r) \<Rightarrow>
          (case skip_ws r of
             [] \<Rightarrow> None
           | c # r' \<Rightarrow>
               if c = 0x5D then Some ([v], r')
               else if c = 0x2C then
                 (case parse_array rt n (skip_ws r') of
                    None \<Rightarrow> None
                  | Some (vs, r'') \<Rightarrow> Some (v # vs, r''))
               else None))"
| "parse_object rt 0 s = None"
| "parse_object rt (Suc n) s =
     (case s of
        [] \<Rightarrow> None
      | c # cs \<Rightarrow>
          if c \<noteq> dquote then None
          else
            (case scanstring cs of
               None \<Rightarrow> None
             | Some (key, r) \<Rightarrow>
                 (case skip_ws r of
                    [] \<Rightarrow> None
                  | c1 # r1 \<Rightarrow>
                      if c1 \<noteq> 0x3A then None
                      else
                        (case scan_once rt n (skip_ws r1) of
                           None \<Rightarrow> None
                         | Some (v, r2) \<Rightarrow>
                             (case skip_ws r2 of
                                [] \<Rightarrow> None
                              | c2 # r3 \<Rightarrow>
                                  if c2 = 0x7D then Some ([(key, v)], r3)
                                  else if c2 = 0x2C then
                                    (case parse_object rt n (skip_ws r3) of
                                       None \<Rightarrow> None
                                     | Some (ps, r4) \<Rightarrow> Some ((key, v) # ps, r4))
                                  else None)))))"

text \<open>
  \<^verbatim>\<open>json.loads(s)\<close>: a text that starts with a byte order mark is refused; then leading
  white space, one value, trailing white space, and nothing after it. \<open>None\<close> is a
  \<^verbatim>\<open>JSONDecodeError\<close>.
\<close>

definition json_loads :: "runtime \<Rightarrow> pystr \<Rightarrow> pyval option" where
  "json_loads rt s =
     (if take 1 s = [0xFEFF] then None
      else case scan_once rt (2 * length s + 2) (skip_ws s) of
             None \<Rightarrow> None
           | Some (v, r) \<Rightarrow> if skip_ws r = [] then Some v else None)"

subsection \<open>Values that \<^verbatim>\<open>json\<close> writes and reads back\<close>

text \<open>
  Text without surrogates: every code point is below \<^verbatim>\<open>0x110000\<close> and outside
  \<^verbatim>\<open>0xD800\<close> to \<^verbatim>\<open>0xDFFF\<close>.
\<close>

definition scalar_value :: "nat \<Rightarrow> bool" where
  "scalar_value c = (c < 0x110000 \<and> \<not> (0xD800 \<le> c \<and> c \<le> 0xDFFF))"

text \<open>A text that \<^verbatim>\<open>NUMBER_RE\<close> matches as a whole, with a fraction or an exponent.\<close>

definition float_literal :: "pystr \<Rightarrow> bool" where
  "float_literal s = (match_number s = Some (FloatLit s, []))"

text \<open>
  A float that is written and read back: an infinity, or a finite float whose
  \<^verbatim>\<open>repr\<close> is a JSON number that \<^verbatim>\<open>float\<close> reads as the same float, which is what the
  shortest \<^verbatim>\<open>repr\<close> of the interpreter is made for. A NaN is no such float: it is equal
  to no float, itself included.
\<close>

definition float_exact :: "runtime \<Rightarrow> pyfloat \<Rightarrow> bool" where
  "float_exact rt x =
     (\<not> float_is_nan x
      \<and> (x = float_inf \<or> x = float_neg_inf
          \<or> (float_literal (float_repr rt x) \<and> float_of_str rt (float_repr rt x) = x)))"

text \<open>
  The values of the round trip: \<^verbatim>\<open>None\<close>, booleans, integers of at most 4300 digits
  (the interpreter's default limit for the conversion), floats that are written and read
  back, strings without surrogates, lists of such values, and dictionaries of such
  values under distinct keys without surrogates. A tuple is no such value.
\<close>

fun json_exact :: "runtime \<Rightarrow> pyval \<Rightarrow> bool" where
  "json_exact rt PNone = True"
| "json_exact rt (PBool b) = True"
| "json_exact rt (PInt i) = (length (str_nat (nat \<bar>i\<bar>)) \<le> 4300)"
| "json_exact rt (PFloat x) = float_exact rt x"
| "json_exact rt (PStr s) = list_all scalar_value s"
| "json_exact rt (PList xs) = list_all (json_exact rt) xs"
| "json_exact rt (PTuple xs) = False"
| "json_exact rt (PDict d) =
     (distinct (dict_keys d)
      \<and> list_all (\<lambda>p. list_all scalar_value (fst p) \<and> json_exact rt (snd p)) d)"

text \<open>
  What follows a value in a compact document: the end, a comma, or a closing bracket
  or brace. And the first character of a value: an ASCII character that is no white
  space, and no closing bracket or brace.
\<close>

definition value_end :: "pystr \<Rightarrow> bool" where
  "value_end r = (case r of [] \<Rightarrow> True | c # _ \<Rightarrow> c = 0x2C \<or> c = 0x5D \<or> c = 0x7D)"

definition value_start :: "nat \<Rightarrow> bool" where
  "value_start c = (c < 0x80 \<and> \<not> is_ws c \<and> c \<noteq> 0x5D \<and> c \<noteq> 0x7D)"

section \<open>The operations of the tools on Python values\<close>

text \<open>
  What a collaborator of the tools raises: an instance of \<^verbatim>\<open>Exception\<close>, which
  \<^verbatim>\<open>except Exception\<close> catches, or an exception that only derives from
  \<^verbatim>\<open>BaseException\<close> (a cancellation, a keyboard interrupt), which it does not catch.
  Each carries its \<^verbatim>\<open>str(e)\<close>.
\<close>

datatype raised = Exception pystr | BaseException pystr

text \<open>
  What a tool body raises to its caller: an exception of a collaborator that it did not
  catch, or the error of one of its own operations on a value.
\<close>

datatype tool_exception =
    Propagated raised
  | TypeError
  | KeyError
  | IndexError
  | JSONDecodeError

datatype tool_result = Returns pystr | Raises tool_exception

text \<open>\<^verbatim>\<open>k in s\<close> for two strings: \<open>k\<close> occurs in \<open>s\<close>.\<close>

fun str_contains :: "pystr \<Rightarrow> pystr \<Rightarrow> bool" where
  "str_contains [] k = (k = [])"
| "str_contains (c # cs) k = (take (length k) (c # cs) = k \<or> str_contains cs k)"

text \<open>
  \<^verbatim>\<open>k in x\<close> for a string \<open>k\<close>: a key of a dictionary, an item of a list or tuple, a
  substring.
\<close>

fun py_contains :: "pyval \<Rightarrow> pystr \<Rightarrow> tool_exception + bool" where
  "py_contains (PDict d) k = Inr (k \<in> set (dict_keys d))"
| "py_contains (PList xs) k = Inr (PStr k \<in> set xs)"
| "py_contains (PTuple xs) k = Inr (PStr k \<in> set xs)"
| "py_contains (PStr s) k = Inr (str_contains s k)"
| "py_contains v k = Inl TypeError"

text \<open>\<^verbatim>\<open>x[k]\<close> for a string \<open>k\<close>.\<close>

fun py_getitem :: "pyval \<Rightarrow> pystr \<Rightarrow> tool_exception + pyval" where
  "py_getitem (PDict d) k = (case dict_get d k of None \<Rightarrow> Inl KeyError | Some v \<Rightarrow> Inr v)"
| "py_getitem v k = Inl TypeError"

text \<open>\<^verbatim>\<open>x[0]\<close>. A dictionary with string keys has no key \<^verbatim>\<open>0\<close>.\<close>

fun py_first :: "pyval \<Rightarrow> tool_exception + pyval" where
  "py_first (PList xs) = (case xs of [] \<Rightarrow> Inl IndexError | x # _ \<Rightarrow> Inr x)"
| "py_first (PTuple xs) = (case xs of [] \<Rightarrow> Inl IndexError | x # _ \<Rightarrow> Inr x)"
| "py_first (PStr s) = (case s of [] \<Rightarrow> Inl IndexError | c # _ \<Rightarrow> Inr (PStr [c]))"
| "py_first (PDict d) = Inl KeyError"
| "py_first v = Inl TypeError"

text \<open>\<^verbatim>\<open>x[k] = v\<close> for a string \<open>k\<close>.\<close>

fun py_setitem :: "pyval \<Rightarrow> pystr \<Rightarrow> pyval \<Rightarrow> tool_exception + pyval" where
  "py_setitem (PDict d) k v = Inr (PDict (dict_set d k v))"
| "py_setitem x k v = Inl TypeError"

section \<open>The ad-set tools\<close>

text \<open>
  Python checks no annotation at run time, so every argument of a tool is a
  \<^typ>\<open>pyval\<close>; an argument left out has its default, which the caller passes. The
  bodies below are those of \<^verbatim>\<open>adsets.py\<close>, without their decorators.

  The request a tool hands to \<^verbatim>\<open>make_api_request(endpoint, access_token, params, method)\<close>:
  the method is \<open>None\<close> where the call leaves it to the dispatcher's default.
\<close>

record request =
  endpoint :: pystr
  access_token :: pyval
  params :: "(pystr \<times> pyval) list"
  http_method :: "pystr option"

text \<open>
  The calls a tool makes, in order: to \<^verbatim>\<open>get_ad_accounts\<close> with its three positional
  arguments, and to \<^verbatim>\<open>make_api_request\<close>.
\<close>

datatype event =
    AdAccountsCall pystr pystr pyval
  | ApiRequest request

text \<open>
  The two collaborators are defined outside \<^verbatim>\<open>adsets.py\<close>; the tools take them as
  parameters. Each answers a call with a value or raises.
\<close>

type_synonym ad_accounts = "pystr \<Rightarrow> pystr \<Rightarrow> pyval \<Rightarrow> raised + pystr"
type_synonym dispatcher = "request \<Rightarrow> raised + pyval"

definition adsets_fields :: pystr where
  "adsets_fields = lit ''id,name,campaign_id,status,daily_budget,lifetime_budget,targeting,bid_amount,bid_strategy,optimization_goal,billing_event,start_time,end_time,created_time,updated_time,frequency_control_specs{event,interval_days,max_frequency}''"

definition adset_details_fields :: pystr where
  "adset_details_fields = lit ''id,name,campaign_id,status,frequency_control_specs{event,interval_days,max_frequency},daily_budget,lifetime_budget,targeting,bid_amount,bid_strategy,optimization_goal,billing_event,start_time,end_time,created_time,updated_time,attribution_spec,destination_type,promoted_object,pacing_type,budget_remaining''"

definition error_envelope :: "string \<Rightarrow> pyval" where
  "error_envelope msg = PDict [(lit ''error'', PStr (lit msg))]"

subsection \<open>\<^verbatim>\<open>get_adsets\<close>\<close>

text \<open>
  Lines 27 to 30: the id of the first account of the decoded answer, or the early
  return when the answer has no account.
\<close>

definition first_account_id :: "runtime \<Rightarrow> pyval \<Rightarrow> tool_result + pyval" where
  "first_account_id rt accounts_data =
     (let no_accounts =
            Returns (json_dumps_indent rt 2
              (error_envelope ''No account ID specified and no accounts found for user''))
      in case py_contains accounts_data (lit ''data'') of
           Inl e \<Rightarrow> Inl (Raises e)
         | Inr False \<Rightarrow> Inl no_accounts
         | Inr True \<Rightarrow>
             (case py_getitem accounts_data (lit ''data'') of
                Inl e \<Rightarrow> Inl (Raises e)
              | Inr accounts \<Rightarrow>
                  if \<not> py_truthy accounts then Inl no_accounts
                  else
                    (case py_first accounts of
                       Inl e \<Rightarrow> Inl (Raises e)
                     | Inr account \<Rightarrow>
                         (case py_getitem account (lit ''id'') of
                            Inl e \<Rightarrow> Inl (Raises e)
                          | Inr account_id \<Rightarrow> Inr account_id))))"

text \<open>Lines 33 to 45: the endpoint and the parameters of the request.\<close>

definition adsets_request :: "runtime \<Rightarrow> pyval \<Rightarrow> pyval \<Rightarrow> pyval \<Rightarrow> pyval \<Rightarrow> request" where
  "adsets_request rt token account_id limit campaign_id =
     (if py_truthy campaign_id then
        \<lparr>endpoint = py_str rt campaign_id @ lit ''/adsets'', access_token = token,
         params = [(lit ''fields'', PStr adsets_fields), (lit ''limit'', limit)],
         http_method = None\<rparr>
      else
        \<lparr>endpoint = py_str rt account_id @ lit ''/adsets'', access_token = token,
         params = [(lit ''fields'', PStr adsets_fields), (lit ''limit'', limit)],
         http_method = None\<rparr>)"

definition get_adsets ::
  "runtime \<Rightarrow> ad_accounts \<Rightarrow> dispatcher \<Rightarrow> pyval \<Rightarrow> pyval \<Rightarrow> pyval \<Rightarrow> pyval
   \<Rightarrow> tool_result \<times> event list" where
  "get_adsets rt get_ad_accounts make_api_request token account_id limit campaign_id =
     (let arg = json_dumps rt (PDict [(lit ''limit'', PInt 1)]);
          call = AdAccountsCall (lit ''me'') arg token;
          resolved =
            (if \<not> py_truthy account_id then
               (case get_ad_accounts (lit ''me'') arg token of
                  Inl e \<Rightarrow> (Inl (Raises (Propagated e)), [call])
                | Inr accounts_json \<Rightarrow>
                    (case json_loads rt accounts_json of
                       None \<Rightarrow> (Inl (Raises JSONDecodeError), [call])
                     | Some accounts_data \<Rightarrow> (first_account_id rt accounts_data, [call])))
             else (Inr account_id, []))
      in case resolved of
           (Inl early, evs) \<Rightarrow> (early, evs)
         | (Inr account, evs) \<Rightarrow>
             (let req = adsets_request rt token account limit campaign_id
              in case make_api_request req of
                   Inl e \<Rightarrow> (Raises (Propagated e), evs @ [ApiRequest req])
                 | Inr data \<Rightarrow>
                     (Returns (json_dumps_indent rt 2 data), evs @ [ApiRequest req])))"

subsection \<open>\<^verbatim>\<open>get_adset_details\<close>\<close>

definition no_frequency_note :: pystr where
  "no_frequency_note = lit ''No frequency_control_specs field was returned by the API. This means either no frequency caps are set or the API did not include this field in the response.''"

text \<open>Lines 81 to 87: the answer as it is returned.\<close>

definition details_result :: "runtime \<Rightarrow> pyval \<Rightarrow> tool_result" where
  "details_result rt data =
     (case py_contains data (lit ''frequency_control_specs'') of
        Inl e \<Rightarrow> Raises e
      | Inr True \<Rightarrow> Returns (json_dumps_indent rt 2 data)
      | Inr False \<Rightarrow>
          (case py_setitem data (lit ''_meta'') (PDict [(lit ''note'', PStr no_frequency_note)]) of
             Inl e \<Rightarrow> Raises e
           | Inr data' \<Rightarrow> Returns (json_dumps_indent rt 2 data')))"

definition get_adset_details ::
  "runtime \<Rightarrow> dispatcher \<Rightarrow> pyval \<Rightarrow> pyval \<Rightarrow> tool_result \<times> event list" where
  "get_adset_details rt make_api_request token adset_id =
     (if \<not> py_truthy adset_id then
        (Returns (json_dumps_indent rt 2 (error_envelope ''No ad set ID provided'')), [])
      else
        (let req = \<lparr>endpoint = py_str rt adset_id, access_token = token,
                    params = [(lit ''fields'', PStr adset_details_fields)],
                    http_method = None\<rparr>
         in case make_api_request req of
              Inl e \<Rightarrow> (Raises (Propagated e), [ApiRequest req])
            | Inr data \<Rightarrow> (details_result rt data, [ApiRequest req])))"

subsection \<open>\<^verbatim>\<open>create_adset\<close>\<close>

definition default_targeting :: pyval where
  "default_targeting =
     PDict [(lit ''age_min'', PInt 18),
            (lit ''age_max'', PInt 65),
            (lit ''geo_locations'', PDict [(lit ''countries'', PList [PStr (lit ''US'')])]),
            (lit ''targeting_automation'', PDict [(lit ''advantage_audience'', PInt 1)])]"

text \<open>Lines 145 to 182: the parameters, once the required arguments are there.\<close>

definition create_params ::
  "runtime \<Rightarrow> pyval \<Rightarrow> pyval \<Rightarrow> pyval \<Rightarrow> pyval \<Rightarrow> pyval \<Rightarrow> pyval \<Rightarrow> pyval \<Rightarrow> pyval \<Rightarrow> pyval
   \<Rightarrow> pyval \<Rightarrow> pyval \<Rightarrow> pyval \<Rightarrow> (pystr \<times> pyval) list" where
  "create_params rt campaign_id name status daily_budget lifetime_budget targeting
     optimization_goal billing_event bid_amount bid_strategy start_time end_time =
     (let targeting' = (if \<not> py_truthy targeting then default_targeting else targeting);
          p0 = [(lit ''name'', name),
                (lit ''campaign_id'', campaign_id),
                (lit ''status'', status),
                (lit ''optimization_goal'', optimization_goal),
                (lit ''billing_event'', billing_event),
                (lit ''targeting'', PStr (json_dumps rt targeting'))];
          p1 = (if daily_budget \<noteq> PNone
                then dict_set p0 (lit ''daily_budget'') (PStr (py_str rt daily_budget)) else p0);
          p2 = (if lifetime_budget \<noteq> PNone
                then dict_set p1 (lit ''lifetime_budget'') (PStr (py_str rt lifetime_budget))
                else p1);
          p3 = (if bid_amount \<noteq> PNone
                then dict_set p2 (lit ''bid_amount'') (PStr (py_str rt bid_amount)) else p2);
          p4 = (if py_truthy bid_strategy
                then dict_set p3 (lit ''bid_strategy'') bid_strategy else p3);
          p5 = (if py_truthy start_time then dict_set p4 (lit ''start_time'') start_time else p4);
          p6 = (if py_truthy end_time then dict_set p5 (lit ''end_time'') end_time else p5)
      in p6)"

definition create_adset ::
  "runtime \<Rightarrow> dispatcher \<Rightarrow> pyval \<Rightarrow> pyval \<Rightarrow> pyval \<Rightarrow> pyval \<Rightarrow> pyval \<Rightarrow> pyval \<Rightarrow> pyval \<Rightarrow> pyval
   \<Rightarrow> pyval \<Rightarrow> pyval \<Rightarrow> pyval \<Rightarrow> pyval \<Rightarrow> pyval \<Rightarrow> pyval \<Rightarrow> tool_result \<times> event list" where
  "create_adset rt make_api_request account_id campaign_id name status daily_budget
     lifetime_budget targeting optimization_goal billing_event bid_amount bid_strategy
     start_time end_time token =
     (if \<not> py_truthy account_id then
        (Returns (json_dumps_indent rt 2 (error_envelope ''No account ID provided'')), [])
      else if \<not> py_truthy campaign_id then
        (Returns (json_dumps_indent rt 2 (error_envelope ''No campaign ID provided'')), [])
      else if \<not> py_truthy name then
        (Returns (json_dumps_indent rt 2 (error_envelope ''No ad set name provided'')), [])
      else if \<not> py_truthy optimization_goal then
        (Returns (json_dumps_indent rt 2 (error_envelope ''No optimization goal provided'')), [])
      else if \<not> py_truthy billing_event then
        (Returns (json_dumps_indent rt 2 (error_envelope ''No billing event provided'')), [])
      else
        (let ps = create_params rt campaign_id name status daily_budget lifetime_budget
                    targeting optimization_goal billing_event bid_amount bid_strategy
                    start_time end_time;
             req = \<lparr>endpoint = py_str rt account_id @ lit ''/adsets'', access_token = token,
                    params = ps, http_method = Some (lit ''POST'')\<rparr>
         in case make_api_request req of
              Inr data \<Rightarrow> (Returns (json_dumps_indent rt 2 data), [ApiRequest req])
            | Inl (Exception error_msg) \<Rightarrow>
                (Returns (json_dumps_indent rt 2
                   (PDict [(lit ''error'', PStr (lit ''Failed to create ad set'')),
                           (lit ''details'', PStr error_msg),
                           (lit ''params_sent'', PDict ps)])),
                 [ApiRequest req])
            | Inl (BaseException m) \<Rightarrow>
                (Raises (Propagated (BaseException m)), [ApiRequest req])))"

subsection \<open>\<^verbatim>\<open>update_adset\<close>\<close>

text \<open>\<^verbatim>\<open>isinstance(x, dict)\<close>.\<close>

fun is_dict :: "pyval \<Rightarrow> bool" where
  "is_dict (PDict d) = True"
| "is_dict v = False"

text \<open>\<^verbatim>\<open>isinstance(x, str)\<close>.\<close>

fun is_str :: "pyval \<Rightarrow> bool" where
  "is_str (PStr s) = True"
| "is_str v = False"

text \<open>Lines 219 to 241: the parameters of the update.\<close>

definition update_params ::
  "runtime \<Rightarrow> pyval \<Rightarrow> pyval \<Rightarrow> pyval \<Rightarrow> pyval \<Rightarrow> pyval \<Rightarrow> pyval \<Rightarrow> (pystr \<times> pyval) list" where
  "update_params rt frequency_control_specs bid_strategy bid_amount status targeting
     optimization_goal =
     (let p0 = [];
          p1 = (if frequency_control_specs \<noteq> PNone
                then dict_set p0 (lit ''frequency_control_specs'') frequency_control_specs
                else p0);
          p2 = (if bid_strategy \<noteq> PNone
                then dict_set p1 (lit ''bid_strategy'') bid_strategy else p1);
          p3 = (if bid_amount \<noteq> PNone
                then dict_set p2 (lit ''bid_amount'') (PStr (py_str rt bid_amount)) else p2);
          p4 = (if status \<noteq> PNone then dict_set p3 (lit ''status'') status else p3);
          p5 = (if optimization_goal \<noteq> PNone
                then dict_set p4 (lit ''optimization_goal'') optimization_goal else p4);
          p6 = (if targeting \<noteq> PNone
                then (if is_dict targeting
                      then dict_set p5 (lit ''targeting'') (PStr (json_dumps rt targeting))
                      else dict_set p5 (lit ''targeting'') targeting)
                else p5)
      in p6)"

definition update_adset ::
  "runtime \<Rightarrow> dispatcher \<Rightarrow> pyval \<Rightarrow> pyval \<Rightarrow> pyval \<Rightarrow> pyval \<Rightarrow> pyval \<Rightarrow> pyval \<Rightarrow> pyval \<Rightarrow> pyval
   \<Rightarrow> tool_result \<times> event list" where
  "update_adset rt make_api_request adset_id frequency_control_specs bid_strategy bid_amount
     status targeting optimization_goal token =
     (if \<not> py_truthy adset_id then
        (Returns (json_dumps_indent rt 2 (error_envelope ''No ad set ID provided'')), [])
      else
        (let ps = update_params rt frequency_control_specs bid_strategy bid_amount status
                    targeting optimization_goal
         in if ps = [] then
              (Returns (json_dumps_indent rt 2
                 (error_envelope ''No update parameters provided'')), [])
            else
              (let req = \<lparr>endpoint = py_str rt adset_id, access_token = token,
                          params = ps, http_method = Some (lit ''POST'')\<rparr>
               in case make_api_request req of
                    Inr data \<Rightarrow> (Returns (json_dumps_indent rt 2 data), [ApiRequest req])
                  | Inl (Exception error_msg) \<Rightarrow>
                      (Returns (json_dumps_indent rt 2
                         (PDict [(lit ''error'',
                                  PStr (lit ''Failed to update ad set '' @ py_str rt adset_id)),
                                 (lit ''details'', PStr error_msg),
                                 (lit ''params_sent'', PDict ps)])),
                       [ApiRequest req])
                  | Inl (BaseException m) \<Rightarrow>
                      (Raises (Propagated (BaseException m)), [ApiRequest req]))))"

subsection \<open>Names for the statements\<close>

text \<open>The call \<^verbatim>\<open>get_ad_accounts("me", json.dumps({"limit": 1}), access_token)\<close> of line 24.\<close>

definition accounts_call :: "runtime \<Rightarrow> pyval \<Rightarrow> event" where
  "accounts_call rt token =
     AdAccountsCall (lit ''me'') (json_dumps rt (PDict [(lit ''limit'', PInt 1)])) token"

definition no_accounts_envelope :: pyval where
  "no_accounts_envelope = error_envelope ''No account ID specified and no accounts found for user''"

text \<open>
  A runtime for the concrete calls of this file: its float conversions know the one
  float 1.5, and it takes every character beyond ASCII for printable.
\<close>

definition sample_runtime :: runtime where
  "sample_runtime =
     \<lparr>float_repr = (\<lambda>x. lit ''1.5''),
      float_of_str = (\<lambda>s. 0x3FF8000000000000),
      isprintable = (\<lambda>c. True)\<rparr>"

text \<open>
  An answer of \<^verbatim>\<open>get_ad_accounts\<close> as the Graph API gives it: one account with its id, a
  name beyond Latin-1, a float and an integer, and the paging entry.
\<close>

definition sample_accounts :: pyval where
  "sample_accounts =
     PDict [(lit ''data'',
             PList [PDict [(lit ''id'', PStr (lit ''act_7'')),
                           (lit ''name'', PStr [0xC11C, 0xC6B8, 0x20, 0x1F600]),
                           (lit ''balance'', PFloat 0x3FF8000000000000),
                           (lit ''age'', PInt 12)]]),
            (lit ''paging'', PDict [])]"

text \<open>The frequency cap of the docstring of \<^verbatim>\<open>update_adset\<close>.\<close>

definition sample_specs :: pyval where
  "sample_specs =
     PList [PDict [(lit ''event'', PStr (lit ''IMPRESSIONS'')), (lit ''interval_days'', PInt 7),
                   (lit ''max_frequency'', PInt 3)]]"


section \<open>The token lifecycle manager\<close>

text \<open>
  Modelled from the spec: the module \<^verbatim>\<open>meta_ads_mcp/core/pipeboard_auth.py\<close> with the
  manager's \<^verbatim>\<open>get_access_token\<close> is not among the sources; only its test
  \<^verbatim>\<open>test_bypass.py\<close> is. The definitions of this section follow sections 3 and 4.1 of
  the specification; the sentinel is the string the test compares the token with.
\<close>

datatype credential_source = LIVE | BYPASS

record credential =
  token_value :: string
  obtained_at :: nat
  source :: credential_source
  known_valid :: "bool option"

datatype auth_error = AuthError

definition mock_access_token :: string where
  "mock_access_token = ''MOCK_ACCESS_TOKEN_BYPASS_12345''"

text \<open>
  Modelled from the spec: \<^verbatim>\<open>get_access_token(force_refresh)\<close>. The arguments are the
  environment signal for the bypass mode, the outcome of an acquisition should one be
  performed (\<open>None\<close> when it fails), the time, and the credential store; the result is
  the token or the error, with the store after the call. In bypass mode the sentinel is
  returned whatever \<open>force_refresh\<close> is. Otherwise a held token that is not known to be
  invalid is returned unchanged unless a refresh is forced; in the other cases a token is
  acquired and replaces the held credential, and the failure of the acquisition is an
  \<^verbatim>\<open>AuthError\<close> when no token was held before.
\<close>

definition get_access_token ::
  "bool \<Rightarrow> string option \<Rightarrow> nat \<Rightarrow> credential option \<Rightarrow> bool
   \<Rightarrow> (auth_error + string) \<times> credential option" where
  "get_access_token bypass acquired now held force_refresh =
     (if bypass then (Inr mock_access_token, held)
      else
        (let acquire =
               (case acquired of
                  Some t \<Rightarrow>
                    (Inr t, Some \<lparr>token_value = t, obtained_at = now, source = LIVE,
                                  known_valid = None\<rparr>)
                | None \<Rightarrow>
                    (case held of
                       None \<Rightarrow> (Inl AuthError, held)
                     | Some c \<Rightarrow> (Inr (token_value c), held)))
         in case held of
              None \<Rightarrow> acquire
            | Some c \<Rightarrow>
                if \<not> force_refresh \<and> known_valid c \<noteq> Some False
                then (Inr (token_value c), held)
                else acquire))"

section \<open>The round trip of \<^verbatim>\<open>json.dumps\<close> and \<^verbatim>\<open>json.loads\<close>\<close>

subsection \<open>Literals, digits and escapes\<close>

lemma lit_inject [simp]: "lit a = lit b \<longleftrightarrow> a = b"
  unfolding lit_def by (rule inj_map_eq_map) (rule inj_of_char)

lemma lit_Nil [simp]: "lit s = [] \<longleftrightarrow> s = []" "[] = lit s \<longleftrightarrow> s = []"
  by (auto simp: lit_def)

lemma length_lit [simp]: "length (lit s) = length s"
  by (simp add: lit_def)

lemmas char_defs = dquote_def squote_def backslash_def newline_def carriage_return_def tab_def
  backspace_def formfeed_def space_def

lemma hex_val_digit_char: "hex_val (digit_char d) = Some (d mod 16)"
proof -
  have "hex_val (if m < 10 then 48 + m else 87 + m) = Some m" if "m < 16" for m :: nat
    using that by (auto simp: hex_val_def)
  then show ?thesis
    by (simp add: digit_char_def Let_def)
qed

lemma digit_char_decimal:
  assumes "d < 10"
  shows "is_digit (digit_char d)" and "digit_val (digit_char d) = d"
    and "d \<noteq> 0 \<longrightarrow> digit_char d \<noteq> 0x30" and "digit_char 0 = 0x30"
  using assms by (simp_all add: digit_char_def is_digit_def digit_val_def Let_def)

lemma hex4_value:
  fixes n :: nat
  assumes "n < 65536"
  shows "(((n div 4096) mod 16 * 16 + (n div 256) mod 16) * 16 + (n div 16) mod 16) * 16
         + n mod 16 = n"
proof -
  define a where "a = n div 16"
  define b where "b = a div 16"
  define c where "c = b div 16"
  define r0 where "r0 = n mod 16"
  define r1 where "r1 = a mod 16"
  define r2 where "r2 = b mod 16"
  have n: "n = a * 16 + r0" and a: "a = b * 16 + r1" and b: "b = c * 16 + r2"
    by (simp_all add: a_def b_def c_def r0_def r1_def r2_def)
  have c16: "c < 16"
    using assms unfolding c_def b_def a_def by (simp add: div_mult2_eq [symmetric])
  have d256: "n div 256 = b" and d4096: "n div 4096 = c"
    unfolding c_def b_def a_def by (simp_all add: div_mult2_eq [symmetric])
  have "((c mod 16 * 16 + r2) * 16 + r1) * 16 + r0 = n"
    using c16 n a b by simp
  then show ?thesis
    unfolding d256 d4096 r0_def r1_def r2_def a_def [symmetric] .
qed

lemma decode_hex4:
  assumes "n < 65536"
  shows "decode_uXXXX (hex4 n @ r) = Some n"
proof -
  have "decode_uXXXX (hex4 n @ r)
        = Some ((((n div 4096) mod 16 * 16 + (n div 256) mod 16) * 16 + (n div 16) mod 16) * 16
                + n mod 16)"
    by (simp add: decode_uXXXX_def hex4_def hex_val_digit_char del: mult_Suc_right)
  then show ?thesis
    by (simp only: hex4_value [OF assms])
qed

lemma length_hex4 [simp]: "length (hex4 n) = 4"
  by (simp add: hex4_def)

lemma surrogate_pair:
  fixes c :: nat
  assumes "0x10000 \<le> c" and "c < 0x110000"
  shows "0xD800 + ((c - 0x10000) div 1024) mod 1024 \<le> 0xDBFF"
    and "0xDC00 + (c - 0x10000) mod 1024 \<le> 0xDFFF"
    and "0x10000 + (((0xD800 + ((c - 0x10000) div 1024) mod 1024) - 0xD800) * 1024
          + ((0xDC00 + (c - 0x10000) mod 1024) - 0xDC00)) = c"
proof -
  define n where "n = c - 0x10000"
  have n: "n < 0x100000" "c = n + 0x10000"
    using assms by (simp_all add: n_def)
  have q: "n div 1024 < 1024"
    using n(1) by simp
  have m: "n mod 1024 < 1024" by simp
  show "0xD800 + ((c - 0x10000) div 1024) mod 1024 \<le> 0xDBFF"
    using q unfolding n_def [symmetric] by simp
  show "0xDC00 + (c - 0x10000) mod 1024 \<le> 0xDFFF"
    using m unfolding n_def [symmetric] by simp
  have "n div 1024 * 1024 + n mod 1024 = n" by simp
  then show "0x10000 + (((0xD800 + ((c - 0x10000) div 1024) mod 1024) - 0xD800) * 1024
          + ((0xDC00 + (c - 0x10000) mod 1024) - 0xDC00)) = c"
    using q n(2) unfolding n_def [symmetric] by simp
qed

subsection \<open>Strings\<close>

lemma scanstring_escape_char:
  assumes "scanstring r = Some (s, rest)" and "scalar_value c"
  shows "scanstring (escape_char c @ r) = Some (c # s, rest)"
proof -
  consider (special) "c \<in> {backslash, dquote, backspace, formfeed, newline, carriage_return, tab}"
    | (plain) "c \<notin> {backslash, dquote, backspace, formfeed, newline, carriage_return, tab}"
        "0x20 \<le> c \<and> c \<le> 0x7E"
    | (bmp) "c \<notin> {backslash, dquote, backspace, formfeed, newline, carriage_return, tab}"
        "\<not> (0x20 \<le> c \<and> c \<le> 0x7E)" "c < 0x10000"
    | (astral) "c \<notin> {backslash, dquote, backspace, formfeed, newline, carriage_return, tab}"
        "\<not> (0x20 \<le> c \<and> c \<le> 0x7E)" "\<not> c < 0x10000"
    by blast
  then show ?thesis
  proof cases
    case special
    then show ?thesis
      using assms(1) by (auto simp: escape_char_def backslash_escape_def char_defs lit_def)
  next
    case plain
    then show ?thesis
      using assms(1) by (auto simp: escape_char_def)
  next
    case bmp
    have dec: "decode_uXXXX (hex4 c @ r) = Some c"
      using bmp(3) by (simp add: decode_hex4)
    have high: "\<not> (0xD800 \<le> c \<and> c \<le> 0xDBFF)"
      using assms(2) by (auto simp: scalar_value_def)
    have "escape_char c @ r = backslash # 0x75 # hex4 c @ r"
      using bmp by (simp add: escape_char_def lit_def)
    then show ?thesis
      using assms(1) dec high by (auto simp: char_defs)
  next
    case astral
    define s1 where "s1 = 0xD800 + ((c - 0x10000) div 1024) mod 1024"
    define s2 where "s2 = 0xDC00 + (c - 0x10000) mod 1024"
    have c: "0x10000 \<le> c" "c < 0x110000"
      using astral(3) assms(2) by (auto simp: scalar_value_def)
    have s1: "0xD800 \<le> s1" "s1 \<le> 0xDBFF" and s2: "0xDC00 \<le> s2" "s2 \<le> 0xDFFF"
      and join: "0x10000 + ((s1 - 0xD800) * 1024 + (s2 - 0xDC00)) = c"
      using surrogate_pair [OF c] unfolding s1_def s2_def by simp_all
    have esc: "escape_char c @ r = backslash # 0x75 # hex4 s1 @ backslash # 0x75 # hex4 s2 @ r"
      using astral by (simp add: escape_char_def lit_def Let_def s1_def s2_def)
    have d1: "decode_uXXXX (hex4 s1 @ backslash # 0x75 # hex4 s2 @ r) = Some s1"
      using s1 by (simp add: decode_hex4)
    have d2: "decode_uXXXX (hex4 s2 @ r) = Some s2"
      using s2 by (simp add: decode_hex4)
    show ?thesis
      unfolding esc using assms(1) d1 d2 s1 s2 join by (simp add: char_defs)
  qed
qed

lemma scanstring_escaped:
  assumes "list_all scalar_value s"
  shows "scanstring (concat (map escape_char s) @ dquote # rest) = Some (s, rest)"
  using assms
proof (induction s)
  case Nil
  show ?case by simp
next
  case (Cons c s)
  then have "scanstring (concat (map escape_char s) @ dquote # rest) = Some (s, rest)"
    and "scalar_value c"
    by simp_all
  then show ?case
    using scanstring_escape_char by simp
qed

lemma scanstring_encoded:
  assumes "list_all scalar_value s"
  shows "\<exists>body. encode_basestring_ascii s @ rest = dquote # body
               \<and> scanstring body = Some (s, rest)"
  using assms by (simp add: encode_basestring_ascii_def scanstring_escaped)

subsection \<open>Numbers\<close>

text \<open>
  What a number matches does not depend on what follows it, when that is the end of
  the document, a comma, or a closing bracket or brace.
\<close>

lemma value_end_cases:
  assumes "value_end r"
  obtains "r = []" | c r' where "r = c # r'" and "c = 0x2C \<or> c = 0x5D \<or> c = 0x7D"
  using assms by (cases r) (auto simp: value_end_def)

lemma digits_append:
  assumes "value_end rest"
  shows "takeWhile is_digit (r @ rest) = takeWhile is_digit r"
    and "dropWhile is_digit (r @ rest) = dropWhile is_digit r @ rest"
proof -
  have "rest = [] \<or> \<not> is_digit (hd rest)"
    using assms by (rule value_end_cases) (auto simp: is_digit_def)
  then show "takeWhile is_digit (r @ rest) = takeWhile is_digit r"
    and "dropWhile is_digit (r @ rest) = dropWhile is_digit r @ rest"
    by (induction r) (auto simp: takeWhile_eq_Nil_iff dropWhile_eq_self_iff)
qed

lemma match_integer_append:
  assumes "value_end rest"
  shows "match_integer (s @ rest)
         = (case match_integer s of None \<Rightarrow> None | Some (ds, r) \<Rightarrow> Some (ds, r @ rest))"
proof (cases s)
  case Nil
  show ?thesis
    using assms by (rule value_end_cases) (auto simp: Nil match_integer_def is_digit_def)
next
  case (Cons d r)
  then show ?thesis
    by (simp add: match_integer_def digits_append [OF assms])
qed

lemma match_frac_append:
  assumes "value_end rest"
  shows "match_frac (s @ rest) = (fst (match_frac s), snd (match_frac s) @ rest)"
proof -
  consider "s = []" | c where "s = [c]" | c d r where "s = c # d # r"
    by (cases s rule: list.exhaust; cases "tl s") auto
  then show ?thesis
  proof cases
    case 1
    show ?thesis
      using assms
      by (rule value_end_cases) (auto simp: 1 match_frac_def is_digit_def split: list.splits)
  next
    case 2
    show ?thesis
      using assms
      by (rule value_end_cases) (auto simp: 2 match_frac_def is_digit_def split: list.splits)
  next
    case 3
    then show ?thesis
      by (simp add: match_frac_def digits_append [OF assms])
  qed
qed

lemma match_exp_append:
  assumes "value_end rest"
  shows "match_exp (s @ rest) = (fst (match_exp s), snd (match_exp s) @ rest)"
proof -
  consider "s = []" | c where "s = [c]" | c d where "s = [c, d]" | c d d' r where "s = c # d # d' # r"
    by (cases s rule: list.exhaust; cases "tl s"; cases "tl (tl s)") auto
  then show ?thesis
  proof cases
    case 1
    show ?thesis
      using assms
      by (rule value_end_cases) (auto simp: 1 match_exp_def is_digit_def split: list.splits)
  next
    case 2
    show ?thesis
      using assms
      by (rule value_end_cases) (auto simp: 2 match_exp_def is_digit_def split: list.splits)
  next
    case 3
    show ?thesis
      using assms
      by (rule value_end_cases)
         (auto simp: 3 match_exp_def is_digit_def digits_append [OF assms] split: list.splits)
  next
    case 4
    then show ?thesis
      by (simp add: match_exp_def digits_append [OF assms])
  qed
qed

lemma match_number_append:
  assumes "value_end rest"
  shows "match_number (s @ rest)
         = (case match_number s of None \<Rightarrow> None | Some (num, r) \<Rightarrow> Some (num, r @ rest))"
proof -
  have neg: "(case s @ rest of [] \<Rightarrow> False | c # _ \<Rightarrow> c = 0x2D)
             = (case s of [] \<Rightarrow> False | c # _ \<Rightarrow> c = 0x2D)"
    using assms by (rule value_end_cases) (auto split: list.splits)
  have tl: "tl (s @ rest) = tl s @ rest" if "(case s of [] \<Rightarrow> False | c # _ \<Rightarrow> c = 0x2D)"
    using that by (cases s) auto
  show ?thesis
    unfolding match_number_def neg Let_def
    by (auto simp: tl match_integer_append [OF assms] match_frac_append [OF assms]
          match_exp_append [OF assms] split: option.splits prod.splits)
qed

lemma nat_of_digits_snoc: "nat_of_digits (ds @ [c]) = 10 * nat_of_digits ds + digit_val c"
  by (simp add: nat_of_digits_def)

lemma str_nat_value: "nat_of_digits (str_nat n) = n"
proof (induction n rule: str_nat.induct)
  case (1 n)
  show ?case
  proof (cases "n < 10")
    case True
    then show ?thesis
      by (subst str_nat.simps) (simp add: nat_of_digits_def digit_char_decimal)
  next
    case False
    then have "nat_of_digits (str_nat (n div 10)) = n div 10"
      using "1.IH" by simp
    then show ?thesis
      using False
      by (subst str_nat.simps) (simp add: nat_of_digits_snoc digit_char_decimal)
  qed
qed

lemma str_nat_all_digits: "list_all is_digit (str_nat n)"
proof (induction n rule: str_nat.induct)
  case (1 n)
  show ?case
  proof (cases "n < 10")
    case True
    then show ?thesis
      by (subst str_nat.simps) (simp add: digit_char_decimal)
  next
    case False
    then have "list_all is_digit (str_nat (n div 10))"
      using "1.IH" by simp
    then show ?thesis
      using False by (subst str_nat.simps) (simp add: digit_char_decimal)
  qed
qed

lemma str_nat_first:
  "\<exists>c cs. str_nat n = c # cs \<and> is_digit c \<and> (if n = 0 then c = 0x30 \<and> cs = [] else c \<noteq> 0x30)"
proof (induction n rule: str_nat.induct)
  case (1 n)
  show ?case
  proof (cases "n < 10")
    case True
    then show ?thesis
      by (subst str_nat.simps) (simp add: digit_char_decimal)
  next
    case False
    then obtain c cs where "str_nat (n div 10) = c # cs" "is_digit c" "c \<noteq> 0x30"
      using "1.IH" by (auto split: if_splits)
    then show ?thesis
      using False by (subst str_nat.simps) simp
  qed
qed

lemma match_integer_str_nat: "match_integer (str_nat n) = Some (str_nat n, [])"
proof -
  obtain c cs where s: "str_nat n = c # cs" "is_digit c"
      "if n = 0 then c = 0x30 \<and> cs = [] else c \<noteq> 0x30"
    using str_nat_first by blast
  have "list_all is_digit cs"
    using str_nat_all_digits [of n] s(1) by simp
  then have "takeWhile is_digit cs = cs" "dropWhile is_digit cs = []"
    by (induction cs) auto
  then show ?thesis
    using s by (auto simp: match_integer_def split: if_splits)
qed

lemma match_tail_Nil: "match_frac [] = ([], [])" "match_exp [] = ([], [])"
  by (simp_all add: match_frac_def match_exp_def)

lemma match_number_str_int: "match_number (str_int i) = Some (IntLit i, [])"
proof (cases "i < 0")
  case True
  have "match_number (0x2D # str_nat (nat (- i))) = Some (IntLit (- int (nat (- i))), [])"
    by (simp add: match_number_def match_integer_str_nat match_tail_Nil str_nat_value)
  then show ?thesis
    using True by (simp add: str_int_def)
next
  case False
  obtain c cs where s: "str_nat (nat i) = c # cs" "is_digit c"
    using str_nat_first by blast
  have c: "c \<noteq> 0x2D"
    using s(2) by (auto simp: is_digit_def)
  have v: "nat_of_digits (c # cs) = nat i"
    using str_nat_value [of "nat i"] s(1) by simp
  have "match_integer (c # cs) = Some (c # cs, [])"
    using match_integer_str_nat [of "nat i"] s(1) by simp
  then have "match_number (c # cs) = Some (IntLit (int (nat i)), [])"
    using c v by (simp add: match_number_def match_tail_Nil)
  then show ?thesis
    using False s(1) by (simp add: str_int_def)
qed

text \<open>A text that matches as a number starts with a digit, or with a minus sign and a digit.\<close>

lemma match_number_first:
  assumes "match_number s = Some (num, r)"
  shows "\<exists>c cs. s = c # cs \<and> (is_digit c \<or> (c = 0x2D \<and> (\<exists>d ds. cs = d # ds \<and> is_digit d)))"
proof (cases s)
  case Nil
  then show ?thesis
    using assms by (simp add: match_number_def match_integer_def)
next
  case (Cons c cs)
  show ?thesis
  proof (cases "c = 0x2D")
    case True
    then have "match_integer cs \<noteq> None"
      using assms Cons by (auto simp: match_number_def split: option.splits)
    then show ?thesis
      using Cons True
      by (cases cs) (auto simp: match_integer_def is_digit_def split: if_splits)
  next
    case False
    then have "match_integer (c # cs) \<noteq> None"
      using assms Cons by (auto simp: match_number_def split: option.splits)
    then show ?thesis
      using Cons by (auto simp: match_integer_def is_digit_def split: if_splits)
  qed
qed

lemma scan_once_number:
  assumes "match_number s = Some (num, r)"
  shows "scan_once rt (Suc n) s
         = Some (case num of IntLit i \<Rightarrow> PInt i | FloatLit t \<Rightarrow> PFloat (float_of_str rt t), r)"
proof -
  obtain c cs where s: "s = c # cs"
    and c: "is_digit c \<or> (c = 0x2D \<and> (\<exists>d ds. cs = d # ds \<and> is_digit d))"
    using match_number_first [OF assms] by blast
  have "c \<noteq> dquote" "c \<noteq> 0x7B" "c \<noteq> 0x5B" "take 4 s \<noteq> lit ''null''" "take 4 s \<noteq> lit ''true''"
    "take 5 s \<noteq> lit ''false''" "take 3 s \<noteq> lit ''NaN''" "take 8 s \<noteq> lit ''Infinity''"
    "take 9 s \<noteq> lit ''-Infinity''"
    using c s by (auto simp: is_digit_def char_defs lit_def)
  then show ?thesis
    using assms s by (cases num) simp_all
qed

lemma scan_once_int:
  assumes "value_end rest"
  shows "scan_once rt (Suc n) (str_int i @ rest) = Some (PInt i, rest)"
proof -
  have m: "match_number (str_int i @ rest) = Some (IntLit i, rest)"
    using match_number_append [OF assms, of "str_int i"] by (simp add: match_number_str_int)
  show ?thesis
    by (simp only: scan_once_number [OF m] number.case)
qed

lemma scan_once_float_literal:
  assumes "value_end rest" and "float_literal t"
  shows "scan_once rt (Suc n) (t @ rest) = Some (PFloat (float_of_str rt t), rest)"
proof -
  have m: "match_number (t @ rest) = Some (FloatLit t, rest)"
    using match_number_append [OF assms(1), of t] assms(2) by (simp add: float_literal_def)
  show ?thesis
    by (simp only: scan_once_number [OF m] number.case)
qed

subsection \<open>The first character of a value\<close>

lemma skip_ws_no_ws: "\<not> is_ws c \<Longrightarrow> skip_ws (c # cs) = c # cs"
  by (simp add: skip_ws_def)

lemma skip_ws_space: "skip_ws (0x20 # s) = skip_ws s"
  by (simp add: skip_ws_def is_ws_def char_defs)

lemma digit_value_start: "is_digit c \<Longrightarrow> value_start c"
  by (auto simp: is_digit_def value_start_def is_ws_def char_defs)

lemma str_int_first: "\<exists>c cs. str_int i = c # cs \<and> value_start c"
  using str_nat_first [of "nat i"] digit_value_start
  by (auto simp: str_int_def value_start_def is_ws_def char_defs)

lemma float_literal_first:
  assumes "float_literal t"
  shows "\<exists>c cs. t = c # cs \<and> value_start c"
  using match_number_first [of t "FloatLit t" "[]"] assms digit_value_start
  by (auto simp: float_literal_def value_start_def is_ws_def char_defs)

lemma iterencode_first:
  assumes "json_exact rt v"
  shows "\<exists>c cs. iterencode rt None lvl v = c # cs \<and> value_start c"
proof (cases v)
  case (PInt i)
  then show ?thesis
    using str_int_first [of i] by simp
next
  case (PFloat x)
  then have "float_exact rt x"
    using assms by simp
  then show ?thesis
    using PFloat float_literal_first [of "float_repr rt x"]
    by (auto simp: float_exact_def floatstr_def float_inf_def float_neg_inf_def float_is_nan_def
          value_start_def is_ws_def char_defs lit_def)
qed (use assms in \<open>auto simp: value_start_def is_ws_def char_defs encode_basestring_ascii_def
       newline_indent_def lit_def\<close>)

lemma iterencode_list_first:
  assumes "xs \<noteq> []" and "list_all (json_exact rt) xs"
  shows "\<exists>c cs. iterencode_list rt None lvl xs = c # cs \<and> value_start c"
  using assms iterencode_first [of rt "hd xs" lvl] by (cases xs) auto

lemma iterencode_dict_first:
  "d \<noteq> [] \<Longrightarrow> \<exists>cs. iterencode_dict rt None lvl d = dquote # cs"
  by (cases d) (auto simp: encode_basestring_ascii_def)

lemma scan_once_str:
  assumes "list_all scalar_value s"
  shows "scan_once rt (Suc n) (encode_basestring_ascii s @ rest) = Some (PStr s, rest)"
  using scanstring_encoded [OF assms, of rest] by auto

lemma scan_once_float:
  assumes "float_exact rt x" and "value_end rest"
  shows "scan_once rt (Suc n) (floatstr rt x @ rest) = Some (PFloat x, rest)"
proof -
  consider (inf) "x = float_inf" | (neg) "x = float_neg_inf"
    | (finite) "x \<noteq> float_inf" "x \<noteq> float_neg_inf" "float_literal (float_repr rt x)"
        "float_of_str rt (float_repr rt x) = x"
    using assms(1) by (auto simp: float_exact_def)
  then show ?thesis
  proof cases
    case inf
    then have "floatstr rt x = lit ''Infinity''"
      by (simp add: floatstr_def float_is_nan_def float_inf_def)
    then show ?thesis
      using inf by (simp add: lit_def char_defs)
  next
    case neg
    then have "floatstr rt x = lit ''-Infinity''"
      by (simp add: floatstr_def float_is_nan_def float_inf_def float_neg_inf_def)
    then show ?thesis
      using neg by (simp add: lit_def char_defs)
  next
    case finite
    then have "floatstr rt x = float_repr rt x"
      using assms(1) by (simp add: floatstr_def float_exact_def)
    then show ?thesis
      using scan_once_float_literal [OF assms(2) finite(3), of rt n] finite(4) by simp
  qed
qed

subsection \<open>Arrays and objects\<close>

lemma parse_array_encoded:
  assumes "\<And>x m r l. x \<in> set xs \<Longrightarrow> value_end r \<Longrightarrow> length (iterencode rt None l x) \<le> m
             \<Longrightarrow> scan_once rt m (iterencode rt None l x @ r) = Some (x, r)"
    and "xs \<noteq> []" and "list_all (json_exact rt) xs"
    and "length (iterencode_list rt None lvl xs) < n"
  shows "parse_array rt n (iterencode_list rt None lvl xs @ 0x5D # rest) = Some (xs, rest)"
  using assms
proof (induction xs arbitrary: n)
  case Nil
  then show ?case by simp
next
  case (Cons x xs)
  obtain m where n: "n = Suc m"
    using Cons.prems(4) by (cases n) auto
  show ?case
  proof (cases "xs = []")
    case True
    have "scan_once rt m (iterencode rt None lvl x @ 0x5D # rest) = Some (x, 0x5D # rest)"
      using Cons.prems(4) n True by (intro Cons.prems(1)) (auto simp: value_end_def)
    then show ?thesis
      using True n by (simp add: skip_ws_no_ws is_ws_def char_defs)
  next
    case False
    let ?tail = "iterencode_list rt None lvl xs @ 0x5D # rest"
    have len: "length (iterencode rt None lvl x) \<le> m"
      "length (iterencode_list rt None lvl xs) < m"
      using Cons.prems(4) n False by (auto simp: item_separator_def newline_indent_def)
    have "scan_once rt m (iterencode rt None lvl x @ 0x2C # 0x20 # ?tail)
          = Some (x, 0x2C # 0x20 # ?tail)"
      using len(1) by (intro Cons.prems(1)) (auto simp: value_end_def)
    moreover have "parse_array rt m ?tail = Some (xs, rest)"
      using Cons.prems(1,3) False len(2) by (intro Cons.IH) auto
    moreover obtain c cs where "iterencode_list rt None lvl xs = c # cs" "value_start c"
      using iterencode_list_first [OF False, of rt lvl] Cons.prems(3) by auto
    then have "skip_ws ?tail = ?tail"
      by (simp add: skip_ws_no_ws value_start_def)
    ultimately show ?thesis
      using False n
      by (simp add: skip_ws_no_ws skip_ws_space is_ws_def char_defs item_separator_def
            newline_indent_def lit_def)
  qed
qed

lemma parse_object_encoded:
  assumes "\<And>p m r l. p \<in> set d \<Longrightarrow> value_end r \<Longrightarrow> length (iterencode rt None l (snd p)) \<le> m
             \<Longrightarrow> scan_once rt m (iterencode rt None l (snd p) @ r) = Some (snd p, r)"
    and "d \<noteq> []"
    and "list_all (\<lambda>p. list_all scalar_value (fst p) \<and> json_exact rt (snd p)) d"
    and "length (iterencode_dict rt None lvl d) < n"
  shows "parse_object rt n (iterencode_dict rt None lvl d @ 0x7D # rest) = Some (d, rest)"
  using assms
proof (induction d arbitrary: n)
  case Nil
  then show ?case by simp
next
  case (Cons p d)
  obtain m where n: "n = Suc m"
    using Cons.prems(4) by (cases n) auto
  obtain k v where p: "p = (k, v)"
    by (cases p)
  have kv: "list_all scalar_value k" "json_exact rt v"
    using Cons.prems(3) p by simp_all
  let ?after = "\<lambda>tail. 0x3A # 0x20 # iterencode rt None lvl v @ tail"
  have key: "\<exists>body. encode_basestring_ascii k @ ?after tail = dquote # body
                \<and> scanstring body = Some (k, ?after tail)" for tail
    using kv(1) by (rule scanstring_encoded)
  obtain c cs where "iterencode rt None lvl v = c # cs" "value_start c"
    using iterencode_first [OF kv(2)] by blast
  then have ws: "skip_ws (iterencode rt None lvl v @ tail) = iterencode rt None lvl v @ tail"
    for tail
    by (simp add: skip_ws_no_ws value_start_def)
  show ?case
  proof (cases "d = []")
    case True
    have "scan_once rt m (iterencode rt None lvl v @ 0x7D # rest) = Some (v, 0x7D # rest)"
      using Cons.prems(1) [of p "0x7D # rest" lvl m] Cons.prems(4) n True p
      by (auto simp: value_end_def)
    then show ?thesis
      using True n p key [of "0x7D # rest"] ws [of "0x7D # rest"]
      by (auto simp: skip_ws_no_ws skip_ws_space is_ws_def char_defs lit_def)
  next
    case False
    let ?tail = "iterencode_dict rt None lvl d @ 0x7D # rest"
    have len: "length (iterencode rt None lvl v) \<le> m"
      "length (iterencode_dict rt None lvl d) < m"
      using Cons.prems(4) n False p by (auto simp: item_separator_def newline_indent_def)
    have "scan_once rt m (iterencode rt None lvl v @ 0x2C # 0x20 # ?tail)
          = Some (v, 0x2C # 0x20 # ?tail)"
      using Cons.prems(1) [of p "0x2C # 0x20 # ?tail" lvl m] len(1) p
      by (auto simp: value_end_def)
    moreover have "parse_object rt m ?tail = Some (d, rest)"
      using Cons.prems(1,3) False len(2) by (intro Cons.IH) auto
    moreover obtain cs' where "iterencode_dict rt None lvl d = dquote # cs'"
      using iterencode_dict_first [OF False] by blast
    then have "skip_ws ?tail = ?tail"
      by (simp add: skip_ws_no_ws is_ws_def char_defs)
    ultimately show ?thesis
      using False n p key [of "0x2C # 0x20 # ?tail"] ws [of "0x2C # 0x20 # ?tail"]
      by (auto simp: skip_ws_no_ws skip_ws_space is_ws_def char_defs item_separator_def
            newline_indent_def lit_def)
  qed
qed

lemma dict_set_fresh: "k \<notin> set (dict_keys d) \<Longrightarrow> dict_set d k v = d @ [(k, v)]"
  by (induction d) (auto simp: dict_keys_def)

lemma foldl_dict_set_distinct:
  assumes "distinct (dict_keys (acc @ ps))"
  shows "foldl (\<lambda>d (k, v). dict_set d k v) acc ps = acc @ ps"
  using assms
proof (induction ps arbitrary: acc)
  case Nil
  show ?case by simp
next
  case (Cons p ps)
  obtain k v where p: "p = (k, v)" by (cases p)
  have fresh: "k \<notin> set (dict_keys acc)"
    using Cons.prems p by (auto simp: dict_keys_def)
  have "distinct (dict_keys ((acc @ [(k, v)]) @ ps))"
    using Cons.prems p by simp
  then have "foldl (\<lambda>d (k, v). dict_set d k v) (acc @ [(k, v)]) ps = (acc @ [(k, v)]) @ ps"
    by (rule Cons.IH)
  then show ?case
    using p fresh by (simp add: dict_set_fresh)
qed

lemma dict_of_pairs_distinct: "distinct (dict_keys d) \<Longrightarrow> dict_of_pairs d = d"
  using foldl_dict_set_distinct [of "[]" d] by (simp add: dict_of_pairs_def)

lemma scan_once_iterencode:
  assumes "json_exact rt v" and "value_end rest" and "length (iterencode rt None lvl v) \<le> n"
  shows "scan_once rt n (iterencode rt None lvl v @ rest) = Some (v, rest)"
  using assms
proof (induction v arbitrary: n rest lvl)
  case PNone
  then obtain m where "n = Suc m" by (cases n) (auto simp: lit_def)
  then show ?case by (simp add: char_defs lit_def)
next
  case (PBool b)
  then obtain m where "n = Suc m" by (cases n) (auto simp: lit_def split: if_splits)
  then show ?case by (simp add: char_defs lit_def)
next
  case (PInt i)
  obtain c cs where "str_int i = c # cs"
    using str_int_first by blast
  then obtain m where "n = Suc m"
    using PInt.prems(3) by (cases n) auto
  then show ?case
    using scan_once_int [OF PInt.prems(2)] by simp
next
  case (PFloat x)
  obtain c cs where "floatstr rt x = c # cs"
    using iterencode_first [OF PFloat.prems(1), of 0] by auto
  then obtain m where "n = Suc m"
    using PFloat.prems(3) by (cases n) auto
  then show ?case
    using scan_once_float [OF _ PFloat.prems(2), of rt x] PFloat.prems(1) by simp
next
  case (PStr s)
  then obtain m where "n = Suc m"
    by (cases n) (auto simp: encode_basestring_ascii_def)
  then show ?case
    using scan_once_str PStr.prems(1) by simp
next
  case (PList xs)
  show ?case
  proof (cases "xs = []")
    case True
    then obtain m where "n = Suc m"
      using PList.prems(3) by (cases n) (auto simp: lit_def)
    then show ?thesis
      using True by (simp add: skip_ws_no_ws is_ws_def char_defs lit_def)
  next
    case False
    obtain m where n: "n = Suc m"
      using PList.prems(3) False by (cases n) auto
    have len: "length (iterencode_list rt None (Suc lvl) xs) < m"
      using PList.prems(3) False n by (simp add: newline_indent_def lit_def)
    have all: "list_all (json_exact rt) xs"
      using PList.prems(1) by simp
    have items: "scan_once rt k (iterencode rt None l x @ r) = Some (x, r)"
      if "x \<in> set xs" "value_end r" "length (iterencode rt None l x) \<le> k" for x k r l
      using that all by (intro PList.IH) (auto simp: list_all_iff)
    have "parse_array rt m (iterencode_list rt None (Suc lvl) xs @ 0x5D # rest) = Some (xs, rest)"
      using items False all len by (rule parse_array_encoded)
    moreover obtain c cs where "iterencode_list rt None (Suc lvl) xs = c # cs" "value_start c"
      using iterencode_list_first [OF False all] by blast
    ultimately show ?thesis
      using False n
      by (auto simp: skip_ws_no_ws value_start_def newline_indent_def char_defs lit_def)
  qed
next
  case (PTuple xs)
  then show ?case by simp
next
  case (PDict d)
  show ?case
  proof (cases "d = []")
    case True
    then obtain m where "n = Suc m"
      using PDict.prems(3) by (cases n) (auto simp: lit_def)
    then show ?thesis
      using True by (simp add: skip_ws_no_ws is_ws_def char_defs lit_def)
  next
    case False
    obtain m where n: "n = Suc m"
      using PDict.prems(3) False by (cases n) auto
    have len: "length (iterencode_dict rt None (Suc lvl) d) < m"
      using PDict.prems(3) False n by (simp add: newline_indent_def lit_def)
    have all: "list_all (\<lambda>p. list_all scalar_value (fst p) \<and> json_exact rt (snd p)) d"
      using PDict.prems(1) by simp
    have items: "scan_once rt k (iterencode rt None l (snd p) @ r) = Some (snd p, r)"
      if "p \<in> set d" "value_end r" "length (iterencode rt None l (snd p)) \<le> k" for p k r l
    proof -
      have "snd p \<in> Basic_BNFs.snds p"
        by (cases p) simp
      moreover have "json_exact rt (snd p)"
        using that(1) all by (auto simp: list_all_iff)
      ultimately show ?thesis
        using that by (intro PDict.IH) auto
    qed
    have "parse_object rt m (iterencode_dict rt None (Suc lvl) d @ 0x7D # rest) = Some (d, rest)"
      using items False all len by (rule parse_object_encoded)
    moreover obtain cs where "iterencode_dict rt None (Suc lvl) d = dquote # cs"
      using iterencode_dict_first [OF False] by blast
    moreover have "dict_of_pairs d = d"
      using PDict.prems(1) by (simp add: dict_of_pairs_distinct)
    ultimately show ?thesis
      using False n
      by (auto simp: skip_ws_no_ws is_ws_def newline_indent_def char_defs lit_def)
  qed
qed

lemma loads_dumps:
  assumes "json_exact rt v"
  shows "json_loads rt (json_dumps rt v) = Some v"
proof -
  obtain c cs where f: "iterencode rt None 0 v = c # cs" "value_start c"
    using iterencode_first [OF assms] by blast
  have "scan_once rt (2 * length (iterencode rt None 0 v) + 2) (iterencode rt None 0 v @ [])
        = Some (v, [])"
    using assms by (intro scan_once_iterencode) (auto simp: value_end_def)
  then show ?thesis
    using f
    by (simp add: json_loads_def json_dumps_def skip_ws_no_ws value_start_def skip_ws_def)
qed

section \<open>The bound of \<open>json_loads\<close>\<close>

text \<open>
  Every successful scan consumes input, and needs a bound of at most twice the number
  of characters it consumes.
\<close>

lemma skip_ws_length: "length (skip_ws s) \<le> length s"
  by (simp add: skip_ws_def length_dropWhile_le)

lemma skip_ws_Cons_length: "skip_ws s = c # r \<Longrightarrow> length r < length s"
  using skip_ws_length [of s] by simp

lemma scanstring_step:
  assumes "scanstring (c # cs) = Some (str, r)"
  shows "(c = dquote \<and> r = cs)
         \<or> (\<exists>k str'. scanstring (drop k cs) = Some (str', r))"
proof (cases "c = dquote")
  case True
  then show ?thesis using assms by simp
next
  case nq: False
  show ?thesis
  proof (cases "c = backslash")
    case True
    then obtain e r0 where cs: "cs = e # r0"
      using assms nq by (cases cs) auto
    have "\<exists>str'. scanstring (drop 10 r0) = Some (str', r)
          \<or> scanstring (drop 4 r0) = Some (str', r)
          \<or> scanstring r0 = Some (str', r)"
      using assms nq True cs by (auto split: option.splits if_splits)
    then obtain str' where "scanstring (drop 11 cs) = Some (str', r)
          \<or> scanstring (drop 5 cs) = Some (str', r)
          \<or> scanstring (drop 1 cs) = Some (str', r)"
      using cs by auto
    then show ?thesis
      by blast
  next
    case False
    then obtain str' where "scanstring (drop 0 cs) = Some (str', r)"
      using assms nq by (auto split: option.splits if_splits)
    then show ?thesis
      by blast
  qed
qed

lemma scanstring_length: "scanstring cs = Some (str, r) \<Longrightarrow> length r < length cs"
proof (induction "length cs" arbitrary: cs str rule: less_induct)
  case less
  then obtain c cs' where cs: "cs = c # cs'"
    by (cases cs) auto
  then consider "r = cs'" | k str' where "scanstring (drop k cs') = Some (str', r)"
    using scanstring_step [of c cs' str r] less.prems by auto
  then show ?case
  proof cases
    case 1
    then show ?thesis using cs by simp
  next
    case 2
    have "length (drop k cs') < length cs"
      using cs by simp
    then have "length r < length (drop k cs')"
      using less.hyps 2 by blast
    then show ?thesis
      using cs by simp
  qed
qed

lemma match_integer_length: "match_integer s = Some (ds, r) \<Longrightarrow> length r < length s"
proof (cases s)
  case Nil
  assume "match_integer s = Some (ds, r)"
  then show ?thesis using Nil by (simp add: match_integer_def)
next
  case (Cons d cs)
  assume "match_integer s = Some (ds, r)"
  then have "r = cs \<or> r = dropWhile is_digit cs"
    using Cons by (auto simp: match_integer_def split: if_splits)
  then show ?thesis
    using Cons length_dropWhile_le [of is_digit cs] by auto
qed

lemma match_frac_length: "length (snd (match_frac s)) \<le> length s"
proof -
  have "length (dropWhile is_digit r) \<le> Suc (Suc (length r))" for r
    using length_dropWhile_le [of is_digit r] by simp
  then show ?thesis
    by (auto simp: match_frac_def split: list.splits)
qed

lemma match_exp_length: "length (snd (match_exp s)) \<le> length s"
proof -
  have "length (dropWhile is_digit r) \<le> Suc (Suc (length r))"
    "length (dropWhile is_digit r) \<le> Suc (Suc (Suc (length r)))" for r
    using length_dropWhile_le [of is_digit r] by simp_all
  then show ?thesis
    by (auto simp: match_exp_def split: list.splits)
qed

lemma match_number_length: "match_number s = Some (num, r) \<Longrightarrow> length r < length s"
proof -
  assume a: "match_number s = Some (num, r)"
  define neg where "neg = (case s of [] \<Rightarrow> False | c # _ \<Rightarrow> c = 0x2D)"
  obtain ds r1 where i: "match_integer (if neg then tl s else s) = Some (ds, r1)"
    using a unfolding match_number_def neg_def [symmetric] by (auto split: option.splits)
  have "r = snd (match_exp (snd (match_frac r1)))"
    using a i unfolding match_number_def neg_def [symmetric]
    by (auto simp: Let_def split: prod.splits if_splits)
  then have "length r \<le> length r1"
    using match_exp_length [of "snd (match_frac r1)"] match_frac_length [of r1] by simp
  moreover have "length r1 < length (if neg then tl s else s)"
    using i by (rule match_integer_length)
  ultimately show ?thesis
    by (cases s) (auto split: if_splits)
qed

lemma scan_once_leaf_fuel:
  assumes "c \<noteq> 0x7B" and "c \<noteq> 0x5B"
  shows "scan_once rt (Suc k) (c # cs) = scan_once rt (Suc m) (c # cs)"
  using assms by simp

lemma scan_once_leaf_length:
  assumes "c \<noteq> 0x7B" and "c \<noteq> 0x5B" and "scan_once rt (Suc m) (c # cs) = Some (v, r)"
  shows "length r < length (c # cs)"
proof (cases "c = dquote")
  case True
  then obtain str where "scanstring cs = Some (str, r)"
    using assms(3) by (auto split: option.splits)
  then show ?thesis
    using scanstring_length by fastforce
next
  case False
  then consider k where "r = drop (Suc k) (c # cs)"
    | num where "match_number (c # cs) = Some (num, r)"
    using assms by (auto split: if_splits option.splits number.splits)
  then show ?thesis
    by cases (auto dest: match_number_length)
qed

lemma enough_fuel:
  "(\<forall>s v r. scan_once rt m s = Some (v, r)
      \<longrightarrow> length r < length s
          \<and> (\<forall>n. 2 * (length s - length r) \<le> n \<longrightarrow> scan_once rt n s = Some (v, r)))
   \<and> (\<forall>s xs r. parse_array rt m s = Some (xs, r)
      \<longrightarrow> length r < length s
          \<and> (\<forall>n. 2 * (length s - length r) \<le> n \<longrightarrow> parse_array rt n s = Some (xs, r)))
   \<and> (\<forall>s ps r. parse_object rt m s = Some (ps, r)
      \<longrightarrow> length r < length s
          \<and> (\<forall>n. 2 * (length s - length r) \<le> n \<longrightarrow> parse_object rt n s = Some (ps, r)))"
proof (induction m)
  case 0
  show ?case by simp
next
  case (Suc m)
  have ih_scan: "length r < length s" "2 * (length s - length r) \<le> n \<Longrightarrow> scan_once rt n s = Some (v, r)"
    if "scan_once rt m s = Some (v, r)" for s v r n
    using Suc that by blast+
  have ih_array: "length r < length s"
    "2 * (length s - length r) \<le> n \<Longrightarrow> parse_array rt n s = Some (xs, r)"
    if "parse_array rt m s = Some (xs, r)" for s xs r n
    using Suc that by blast+
  have ih_object: "length r < length s"
    "2 * (length s - length r) \<le> n \<Longrightarrow> parse_object rt n s = Some (ps, r)"
    if "parse_object rt m s = Some (ps, r)" for s ps r n
    using Suc that by blast+
  have scan: "length r < length s
              \<and> (\<forall>n. 2 * (length s - length r) \<le> n \<longrightarrow> scan_once rt n s = Some (v, r))"
    if a: "scan_once rt (Suc m) s = Some (v, r)" for s v r
  proof -
    obtain c cs where s: "s = c # cs"
      using a by (cases s) auto
    consider (obj) "c = 0x7B" | (arr) "c = 0x5B" | (leaf) "c \<noteq> 0x7B" "c \<noteq> 0x5B"
      by blast
    then show ?thesis
    proof cases
      case leaf
      have len: "length r < length s"
        using scan_once_leaf_length [OF leaf] a s by blast
      have "scan_once rt n s = Some (v, r)" if b: "2 * (length s - length r) \<le> n" for n
      proof -
        obtain k where "n = Suc k"
          using b len by (cases n) auto
        then show ?thesis
          using scan_once_leaf_fuel [OF leaf, of rt k cs m] a s by simp
      qed
      then show ?thesis
        using len by blast
    next
      case obj
      then obtain c' r0 where w: "skip_ws cs = c' # r0"
        using a s by (cases "skip_ws cs") (auto simp: char_defs)
      have wl: "length r0 < length cs"
        using w by (rule skip_ws_Cons_length)
      show ?thesis
      proof (cases "c' = 0x7D")
        case True
        then have r: "r = r0" "v = PDict []"
          using a s obj w by (auto simp: char_defs)
        have "scan_once rt n s = Some (v, r)" if b: "2 * (length s - length r) \<le> n" for n
        proof -
          obtain k where "n = Suc k"
            using b r wl s by (cases n) auto
          then show ?thesis
            using s obj w True r by (simp add: char_defs)
        qed
        then show ?thesis
          using r wl s by auto
      next
        case False
        then obtain ps where p: "parse_object rt m (c' # r0) = Some (ps, r)" "v = PDict (dict_of_pairs ps)"
          using a s obj w by (auto simp: char_defs split: option.splits)
        have len: "length r < length (c' # r0)"
          using ih_object(1) [OF p(1)] .
        have "scan_once rt n s = Some (v, r)" if b: "2 * (length s - length r) \<le> n" for n
        proof -
          obtain k where k: "n = Suc k"
            using b len wl s by (cases n) auto
          have "2 * (length (c' # r0) - length r) \<le> k"
            using b k len wl s by auto
          then have "parse_object rt k (c' # r0) = Some (ps, r)"
            using ih_object(2) [OF p(1)] by blast
          then show ?thesis
            using s obj w False p(2) k by (simp add: char_defs)
        qed
        then show ?thesis
          using len wl s by auto
      qed
    next
      case arr
      then obtain c' r0 where w: "skip_ws cs = c' # r0"
        using a s by (cases "skip_ws cs") (auto simp: char_defs)
      have wl: "length r0 < length cs"
        using w by (rule skip_ws_Cons_length)
      show ?thesis
      proof (cases "c' = 0x5D")
        case True
        then have r: "r = r0" "v = PList []"
          using a s arr w by (auto simp: char_defs)
        have "scan_once rt n s = Some (v, r)" if b: "2 * (length s - length r) \<le> n" for n
        proof -
          obtain k where "n = Suc k"
            using b r wl s by (cases n) auto
          then show ?thesis
            using s arr w True r by (simp add: char_defs)
        qed
        then show ?thesis
          using r wl s by auto
      next
        case False
        then obtain xs where p: "parse_array rt m (c' # r0) = Some (xs, r)" "v = PList xs"
          using a s arr w by (auto simp: char_defs split: option.splits)
        have len: "length r < length (c' # r0)"
          using ih_array(1) [OF p(1)] .
        have "scan_once rt n s = Some (v, r)" if b: "2 * (length s - length r) \<le> n" for n
        proof -
          obtain k where k: "n = Suc k"
            using b len wl s by (cases n) auto
          have "2 * (length (c' # r0) - length r) \<le> k"
            using b k len wl s by auto
          then have "parse_array rt k (c' # r0) = Some (xs, r)"
            using ih_array(2) [OF p(1)] by blast
          then show ?thesis
            using s arr w False p(2) k by (simp add: char_defs)
        qed
        then show ?thesis
          using len wl s by auto
      qed
    qed
  qed
  have array: "length r < length s
               \<and> (\<forall>n. 2 * (length s - length r) \<le> n \<longrightarrow> parse_array rt n s = Some (xs, r))"
    if a: "parse_array rt (Suc m) s = Some (xs, r)" for s xs r
  proof -
    obtain v r1 where v: "scan_once rt m s = Some (v, r1)"
      using a by (auto split: option.splits)
    obtain c r2 where w: "skip_ws r1 = c # r2"
      using a v by (cases "skip_ws r1") auto
    have l1: "length r1 < length s"
      using ih_scan(1) [OF v] .
    have l2: "length r2 < length r1"
      using w by (rule skip_ws_Cons_length)
    show ?thesis
    proof (cases "c = 0x5D")
      case True
      then have r: "r = r2" "xs = [v]"
        using a v w by auto
      have "parse_array rt n s = Some (xs, r)" if b: "2 * (length s - length r) \<le> n" for n
      proof -
        obtain k where k: "n = Suc k"
          using b r l1 l2 by (cases n) auto
        have "2 * (length s - length r1) \<le> k"
          using b k r l1 l2 by auto
        then have "scan_once rt k s = Some (v, r1)"
          using ih_scan(2) [OF v] by blast
        then show ?thesis
          using k w True r by simp
      qed
      then show ?thesis
        using r l1 l2 by auto
    next
      case False
      then obtain vs where p: "c = 0x2C" "parse_array rt m (skip_ws r2) = Some (vs, r)" "xs = v # vs"
        using a v w by (auto split: option.splits if_splits)
      have l3: "length r < length (skip_ws r2)"
        using ih_array(1) [OF p(2)] .
      have l4: "length (skip_ws r2) \<le> length r2"
        by (rule skip_ws_length)
      have "parse_array rt n s = Some (xs, r)" if b: "2 * (length s - length r) \<le> n" for n
      proof -
        obtain k where k: "n = Suc k"
          using b l1 l2 l3 l4 by (cases n) auto
        have "2 * (length s - length r1) \<le> k" "2 * (length (skip_ws r2) - length r) \<le> k"
          using b k l1 l2 l3 l4 by auto
        then have "scan_once rt k s = Some (v, r1)" "parse_array rt k (skip_ws r2) = Some (vs, r)"
          using ih_scan(2) [OF v] ih_array(2) [OF p(2)] by blast+
        then show ?thesis
          using k w p(1,3) by simp
      qed
      then show ?thesis
        using l1 l2 l3 l4 by auto
    qed
  qed
  have object: "length r < length s
                \<and> (\<forall>n. 2 * (length s - length r) \<le> n \<longrightarrow> parse_object rt n s = Some (ps, r))"
    if a: "parse_object rt (Suc m) s = Some (ps, r)" for s ps r
  proof -
    obtain cs where s: "s = dquote # cs"
      using a by (cases s) (auto split: if_splits)
    obtain key r0 where key: "scanstring cs = Some (key, r0)"
      using a s by (auto split: option.splits)
    obtain r1 where w1: "skip_ws r0 = 0x3A # r1"
      using a s key by (cases "skip_ws r0") (auto split: if_splits)
    obtain v r2 where v: "scan_once rt m (skip_ws r1) = Some (v, r2)"
      using a s key w1 by (auto split: option.splits)
    obtain c r3 where w2: "skip_ws r2 = c # r3"
      using a s key w1 v by (cases "skip_ws r2") auto
    have l0: "length r0 < length cs"
      using key by (rule scanstring_length)
    have l1: "length r1 < length r0"
      using w1 by (rule skip_ws_Cons_length)
    have l2: "length r2 < length (skip_ws r1)" "length (skip_ws r1) \<le> length r1"
      using ih_scan(1) [OF v] skip_ws_length by auto
    have l3: "length r3 < length r2"
      using w2 by (rule skip_ws_Cons_length)
    show ?thesis
    proof (cases "c = 0x7D")
      case True
      then have r: "r = r3" "ps = [(key, v)]"
        using a s key w1 v w2 by auto
      have "parse_object rt n s = Some (ps, r)" if b: "2 * (length s - length r) \<le> n" for n
      proof -
        obtain k where k: "n = Suc k"
          using b r s l0 l1 l2 l3 by (cases n) auto
        have "2 * (length (skip_ws r1) - length r2) \<le> k"
          using b k r s l0 l1 l2 l3 by auto
        then have "scan_once rt k (skip_ws r1) = Some (v, r2)"
          using ih_scan(2) [OF v] by blast
        then show ?thesis
          using k s key w1 w2 True r by simp
      qed
      then show ?thesis
        using r s l0 l1 l2 l3 by auto
    next
      case False
      then obtain ps' where p: "c = 0x2C" "parse_object rt m (skip_ws r3) = Some (ps', r)"
          "ps = (key, v) # ps'"
        using a s key w1 v w2 by (auto split: option.splits if_splits)
      have l4: "length r < length (skip_ws r3)" "length (skip_ws r3) \<le> length r3"
        using ih_object(1) [OF p(2)] skip_ws_length by auto
      have "parse_object rt n s = Some (ps, r)" if b: "2 * (length s - length r) \<le> n" for n
      proof -
        obtain k where k: "n = Suc k"
          using b s l0 l1 l2 l3 l4 by (cases n) auto
        have "2 * (length (skip_ws r1) - length r2) \<le> k"
          "2 * (length (skip_ws r3) - length r) \<le> k"
          using b k s l0 l1 l2 l3 l4 by auto
        then have "scan_once rt k (skip_ws r1) = Some (v, r2)"
          "parse_object rt k (skip_ws r3) = Some (ps', r)"
          using ih_scan(2) [OF v] ih_object(2) [OF p(2)] by blast+
        then show ?thesis
          using k s key w1 w2 p(1,3) by simp
      qed
      then show ?thesis
        using s l0 l1 l2 l3 l4 by auto
    qed
  qed
  show ?case
    using scan array object by blast
qed

text \<open>
  Whatever bound finds a value, the bound of \<open>json_loads\<close> finds it: a failure of
  \<open>json_loads\<close> is never the bound's.
\<close>

lemma json_loads_bound_enough:
  assumes "scan_once rt m (skip_ws s) = Some (v, r)"
  shows "scan_once rt (2 * length s + 2) (skip_ws s) = Some (v, r)"
proof -
  have "2 * (length (skip_ws s) - length r) \<le> 2 * length s + 2"
    using skip_ws_length [of s] by auto
  then show ?thesis
    using enough_fuel [of rt m] assms by blast
qed

lemma json_loads_None:
  assumes "json_loads rt s = None" and "take 1 s \<noteq> [0xFEFF]"
    and "scan_once rt m (skip_ws s) = Some (v, r)"
  shows "skip_ws r \<noteq> []"
  using assms json_loads_bound_enough [OF assms(3)]
  by (auto simp: json_loads_def split: if_splits)

section \<open>Dictionaries and literals\<close>

lemma lit_append_lit [simp]: "lit a @ lit b = lit (a @ b)"
  by (simp add: lit_def)

lemma lit_scalar [simp]: "list_all scalar_value (lit s) \<longleftrightarrow> True"
proof -
  have "scalar_value (of_char c)" for c :: char
  proof -
    have "(of_char c :: nat) < 256" by simp
    then show ?thesis unfolding scalar_value_def by arith
  qed
  then show ?thesis
    by (simp add: lit_def list_all_iff)
qed

lemma dict_get_dict_set:
  "dict_get (dict_set d k v) k' = (if k' = k then Some v else dict_get d k')"
  by (induction d) (auto simp: dict_get_def)

lemma dict_set_not_empty: "dict_set d k v \<noteq> []"
  by (cases d) (auto split: if_splits)

lemma dict_get_None_iff: "dict_get d k = None \<longleftrightarrow> k \<notin> set (dict_keys d)"
  by (simp add: dict_get_def dict_keys_def map_of_eq_None_iff)

section \<open>Validation before the request\<close>

text \<open>
  C1. A call of \<^verbatim>\<open>create_adset\<close> with an account id, a campaign id and a name, and
  with an \<^verbatim>\<open>optimization_goal\<close> that is \<^verbatim>\<open>None\<close> or empty (any value that tests false),
  returns the error envelope for the missing optimization goal; it makes no call of
  \<^verbatim>\<open>make_api_request\<close>, and \<^verbatim>\<open>params_sent\<close> is no key of the envelope.
\<close>

theorem create_adset_missing_optimization_goal:
  assumes "py_truthy account_id" and "py_truthy campaign_id" and "py_truthy name"
    and "\<not> py_truthy optimization_goal"
  shows "create_adset rt make_api_request account_id campaign_id name status daily_budget
           lifetime_budget targeting optimization_goal billing_event bid_amount bid_strategy
           start_time end_time token
         = (Returns (json_dumps_indent rt 2 (error_envelope ''No optimization goal provided'')),
            [])
         \<and> py_contains (error_envelope ''No optimization goal provided'') (lit ''params_sent'')
           = Inr False"
  using assms by (simp add: create_adset_def error_envelope_def dict_keys_def)

theorem create_adset_missing_optimization_goal_witness:
  "create_adset sample_runtime (\<lambda>r. Inr PNone) (PStr (lit ''act_1'')) (PStr (lit ''23''))
     (PStr (lit ''Spring'')) (PStr (lit ''PAUSED'')) PNone PNone PNone (PStr [])
     (PStr (lit ''IMPRESSIONS'')) PNone PNone PNone PNone PNone
   = (Returns (json_dumps_indent sample_runtime 2
        (error_envelope ''No optimization goal provided'')), [])
   \<and> py_contains (error_envelope ''No optimization goal provided'') (lit ''params_sent'')
     = Inr False"
  using create_adset_missing_optimization_goal
    [where account_id = "PStr (lit ''act_1'')" and campaign_id = "PStr (lit ''23'')"
       and name = "PStr (lit ''Spring'')" and optimization_goal = "PStr []"
       and rt = sample_runtime and make_api_request = "\<lambda>r. Inr PNone"
       and status = "PStr (lit ''PAUSED'')" and daily_budget = PNone and lifetime_budget = PNone
       and targeting = PNone and billing_event = "PStr (lit ''IMPRESSIONS'')"
       and bid_amount = PNone and bid_strategy = PNone and start_time = PNone
       and end_time = PNone and token = PNone]
  by simp

lemma update_params_all_None: "update_params rt PNone PNone PNone PNone PNone PNone = []"
  by (simp add: update_params_def)

text \<open>
  C9. A call of \<^verbatim>\<open>update_adset\<close> with an ad set id and with every optional update
  argument left \<^verbatim>\<open>None\<close> returns the envelope \<^verbatim>\<open>{"error": "No update parameters provided"}\<close>
  and makes no call of \<^verbatim>\<open>make_api_request\<close>.
\<close>

theorem update_adset_no_parameters:
  assumes "py_truthy adset_id"
  shows "update_adset rt make_api_request adset_id PNone PNone PNone PNone PNone PNone token
         = (Returns (json_dumps_indent rt 2 (error_envelope ''No update parameters provided'')),
            [])"
  using assms by (simp add: update_adset_def update_params_all_None)

theorem update_adset_no_parameters_witness:
  "update_adset sample_runtime (\<lambda>r. Inl (Exception (lit ''unreachable''))) (PStr (lit ''120''))
     PNone PNone PNone PNone PNone PNone (PStr (lit ''tok''))
   = (Returns (json_dumps_indent sample_runtime 2
        (error_envelope ''No update parameters provided'')), [])"
  using update_adset_no_parameters
    [where adset_id = "PStr (lit ''120'')" and rt = sample_runtime
       and make_api_request = "\<lambda>r. Inl (Exception (lit ''unreachable''))"
       and token = "PStr (lit ''tok'')"]
  by simp

section \<open>The requests of \<^verbatim>\<open>get_adsets\<close>\<close>

text \<open>
  C3. In a call of \<^verbatim>\<open>get_adsets\<close> with a campaign id, every request handed to the
  dispatcher has the endpoint \<^verbatim>\<open>{campaign_id}/adsets\<close> and the parameters \<^verbatim>\<open>fields\<close> and
  \<^verbatim>\<open>limit\<close>, and no other; with an account id given, that request is the one call made.
\<close>

theorem get_adsets_campaign_path:
  assumes "py_truthy campaign_id"
  shows "(\<forall>req. ApiRequest req \<in> set (snd (get_adsets rt get_ad_accounts make_api_request token
                     account_id limit campaign_id))
            \<longrightarrow> endpoint req = py_str rt campaign_id @ lit ''/adsets''
                \<and> dict_keys (params req) = [lit ''fields'', lit ''limit''])
         \<and> (py_truthy account_id
            \<longrightarrow> snd (get_adsets rt get_ad_accounts make_api_request token account_id limit
                       campaign_id)
                = [ApiRequest \<lparr>endpoint = py_str rt campaign_id @ lit ''/adsets'',
                     access_token = token,
                     params = [(lit ''fields'', PStr adsets_fields), (lit ''limit'', limit)],
                     http_method = None\<rparr>])"
  using assms
  by (auto simp: get_adsets_def adsets_request_def dict_keys_def Let_def
           split: sum.splits option.splits prod.splits)

theorem get_adsets_campaign_path_witness:
  "snd (get_adsets sample_runtime (\<lambda>u a t. Inl (Exception (lit ''unused'')))
          (\<lambda>r. Inr (PDict [(lit ''data'', PList [])]))
          (PStr (lit ''tok'')) (PStr (lit ''act_1'')) (PInt 10) (PStr (lit ''23'')))
   = [ApiRequest \<lparr>endpoint = lit ''23/adsets'', access_token = PStr (lit ''tok''),
        params = [(lit ''fields'', PStr adsets_fields), (lit ''limit'', PInt 10)],
        http_method = None\<rparr>]"
  using get_adsets_campaign_path
    [where campaign_id = "PStr (lit ''23'')" and account_id = "PStr (lit ''act_1'')"
       and rt = sample_runtime
       and get_ad_accounts = "\<lambda>u a t. Inl (Exception (lit ''unused''))"
       and make_api_request = "\<lambda>r. Inr (PDict [(lit ''data'', PList [])])"
       and token = "PStr (lit ''tok'')" and limit = "PInt 10"]
  by simp

lemma first_account_id_found:
  assumes "dict_get d (lit ''data'') = Some (PList (PDict a # others))"
    and "dict_get a (lit ''id'') = Some found"
  shows "first_account_id rt (PDict d) = Inr found"
proof -
  have "lit ''data'' \<in> set (dict_keys d)"
    using assms(1) dict_get_None_iff [of d "lit ''data''"] by auto
  then show ?thesis
    using assms by (simp add: first_account_id_def)
qed

lemma get_adsets_lookup_first:
  assumes "\<not> py_truthy account_id"
  shows "\<exists>rest. snd (get_adsets rt get_ad_accounts make_api_request token account_id limit
                     campaign_id)
               = accounts_call rt token # rest"
  using assms
  by (auto simp: get_adsets_def accounts_call_def Let_def
           split: sum.splits option.splits prod.splits)

lemma get_adsets_lookup_found:
  assumes "\<not> py_truthy account_id"
    and "get_ad_accounts (lit ''me'') (json_dumps rt (PDict [(lit ''limit'', PInt 1)])) token
         = Inr accounts_json"
    and "json_loads rt accounts_json = Some (PDict d)"
    and "dict_get d (lit ''data'') = Some (PList (PDict a # others))"
    and "dict_get a (lit ''id'') = Some found"
  shows "snd (get_adsets rt get_ad_accounts make_api_request token account_id limit campaign_id)
         = [accounts_call rt token,
            ApiRequest (adsets_request rt token found limit campaign_id)]"
  using assms(1-3) first_account_id_found [OF assms(4,5), of rt]
  by (simp add: get_adsets_def accounts_call_def Let_def split: sum.splits)

lemma first_account_id_falsy:
  assumes "case dict_get d (lit ''data'') of None \<Rightarrow> True | Some v \<Rightarrow> \<not> py_truthy v"
  shows "first_account_id rt (PDict d)
         = Inl (Returns (json_dumps_indent rt 2 no_accounts_envelope))"
  using assms
  by (auto simp: first_account_id_def no_accounts_envelope_def dict_get_None_iff Let_def
           split: sum.splits bool.splits option.splits)

lemma get_adsets_lookup_falsy:
  assumes "\<not> py_truthy account_id"
    and "get_ad_accounts (lit ''me'') (json_dumps rt (PDict [(lit ''limit'', PInt 1)])) token
         = Inr accounts_json"
    and "json_loads rt accounts_json = Some (PDict d)"
    and "case dict_get d (lit ''data'') of None \<Rightarrow> True | Some v \<Rightarrow> \<not> py_truthy v"
  shows "get_adsets rt get_ad_accounts make_api_request token account_id limit campaign_id
         = (Returns (json_dumps_indent rt 2 no_accounts_envelope), [accounts_call rt token])"
  using assms(1-3) first_account_id_falsy [OF assms(4), of rt]
  by (simp add: get_adsets_def accounts_call_def)

lemma length_str_nat: "length (str_nat n) \<le> Suc n"
proof (induction n rule: str_nat.induct)
  case (1 n)
  show ?case
  proof (cases "n < 10")
    case True
    then show ?thesis by (subst str_nat.simps) simp
  next
    case False
    then have "length (str_nat (n div 10)) \<le> Suc (n div 10)"
      using 1 by simp
    moreover have "Suc (Suc (n div 10)) \<le> Suc n"
      using False by simp
    ultimately show ?thesis
      using False by (subst str_nat.simps) simp
  qed
qed

lemma length_str_nat_small: "n < 4300 \<Longrightarrow> length (str_nat n) \<le> 4300"
  using length_str_nat [of n] by simp

lemma sample_float_exact: "float_exact sample_runtime 0x3FF8000000000000"
  by (simp add: float_exact_def sample_runtime_def float_is_nan_def float_literal_def
        match_number_def match_integer_def match_frac_def match_exp_def lit_def is_digit_def
        float_inf_def float_neg_inf_def)

lemma sample_accounts_exact: "json_exact sample_runtime sample_accounts"
  by (simp add: sample_accounts_def dict_keys_def sample_float_exact length_str_nat_small
        scalar_value_def)

lemma loads_sample_accounts:
  "json_loads sample_runtime (json_dumps sample_runtime sample_accounts) = Some sample_accounts"
  using sample_accounts_exact by (rule loads_dumps)

lemma loads_no_account:
  "json_loads sample_runtime (json_dumps sample_runtime (PDict [(lit ''data'', PList [])]))
   = Some (PDict [(lit ''data'', PList [])])"
  by (rule loads_dumps) (simp add: dict_keys_def)

text \<open>
  C5. A call of \<^verbatim>\<open>get_adsets\<close> with no account id first calls \<^verbatim>\<open>get_ad_accounts\<close> for the
  user \<^verbatim>\<open>me\<close> with the limit 1. When the answer, as \<^verbatim>\<open>json.loads\<close> decodes it, lists an
  account, its id is the account of the request that follows (the request's path, when no
  campaign is given). When the answer has no \<^verbatim>\<open>data\<close>, or a \<^verbatim>\<open>data\<close> that tests false as
  the empty list does, the call returns the envelope
  \<^verbatim>\<open>No account ID specified and no accounts found for user\<close> and makes no request.
\<close>

theorem get_adsets_account_fallback:
  assumes "\<not> py_truthy account_id"
  shows "(\<exists>rest. snd (get_adsets rt get_ad_accounts make_api_request token account_id limit
                      campaign_id)
                = accounts_call rt token # rest)
       \<and> (\<forall>accounts_json d a others found.
            get_ad_accounts (lit ''me'') (json_dumps rt (PDict [(lit ''limit'', PInt 1)])) token
              = Inr accounts_json
            \<and> json_loads rt accounts_json = Some (PDict d)
            \<and> dict_get d (lit ''data'') = Some (PList (PDict a # others))
            \<and> dict_get a (lit ''id'') = Some found
            \<longrightarrow> snd (get_adsets rt get_ad_accounts make_api_request token account_id limit
                       campaign_id)
                  = [accounts_call rt token,
                     ApiRequest (adsets_request rt token found limit campaign_id)]
                \<and> (\<not> py_truthy campaign_id
                   \<longrightarrow> endpoint (adsets_request rt token found limit campaign_id)
                       = py_str rt found @ lit ''/adsets''))
       \<and> (\<forall>accounts_json d.
            get_ad_accounts (lit ''me'') (json_dumps rt (PDict [(lit ''limit'', PInt 1)])) token
              = Inr accounts_json
            \<and> json_loads rt accounts_json = Some (PDict d)
            \<and> (case dict_get d (lit ''data'') of None \<Rightarrow> True | Some v \<Rightarrow> \<not> py_truthy v)
            \<longrightarrow> get_adsets rt get_ad_accounts make_api_request token account_id limit campaign_id
                = (Returns (json_dumps_indent rt 2 no_accounts_envelope),
                   [accounts_call rt token]))"
proof (intro conjI allI impI)
  show "\<exists>rest. snd (get_adsets rt get_ad_accounts make_api_request token account_id limit
                     campaign_id)
              = accounts_call rt token # rest"
    using assms by (rule get_adsets_lookup_first)
next
  fix accounts_json d a others found
  assume h: "get_ad_accounts (lit ''me'') (json_dumps rt (PDict [(lit ''limit'', PInt 1)])) token
               = Inr accounts_json
             \<and> json_loads rt accounts_json = Some (PDict d)
             \<and> dict_get d (lit ''data'') = Some (PList (PDict a # others))
             \<and> dict_get a (lit ''id'') = Some found"
  then show "snd (get_adsets rt get_ad_accounts make_api_request token account_id limit
                    campaign_id)
             = [accounts_call rt token,
                ApiRequest (adsets_request rt token found limit campaign_id)]"
    using assms get_adsets_lookup_found by blast
  assume "\<not> py_truthy campaign_id"
  then show "endpoint (adsets_request rt token found limit campaign_id)
             = py_str rt found @ lit ''/adsets''"
    by (simp add: adsets_request_def)
next
  fix accounts_json d
  assume "get_ad_accounts (lit ''me'') (json_dumps rt (PDict [(lit ''limit'', PInt 1)])) token
            = Inr accounts_json
          \<and> json_loads rt accounts_json = Some (PDict d)
          \<and> (case dict_get d (lit ''data'') of None \<Rightarrow> True | Some v \<Rightarrow> \<not> py_truthy v)"
  then show "get_adsets rt get_ad_accounts make_api_request token account_id limit campaign_id
             = (Returns (json_dumps_indent rt 2 no_accounts_envelope), [accounts_call rt token])"
    using assms get_adsets_lookup_falsy by blast
qed

theorem get_adsets_account_fallback_witness:
  "snd (get_adsets sample_runtime
          (\<lambda>u a t. Inr (json_dumps sample_runtime sample_accounts))
          (\<lambda>r. Inr (PDict [(lit ''data'', PList [])])) (PStr (lit ''tok'')) PNone (PInt 10)
          (PStr []))
   = [accounts_call sample_runtime (PStr (lit ''tok'')),
      ApiRequest \<lparr>endpoint = lit ''act_7/adsets'', access_token = PStr (lit ''tok''),
        params = [(lit ''fields'', PStr adsets_fields), (lit ''limit'', PInt 10)],
        http_method = None\<rparr>]
   \<and> get_adsets sample_runtime
       (\<lambda>u a t. Inr (json_dumps sample_runtime (PDict [(lit ''data'', PList [])])))
       (\<lambda>r. Inr (PDict [(lit ''data'', PList [])])) (PStr (lit ''tok'')) PNone (PInt 10)
       (PStr [])
     = (Returns (json_dumps_indent sample_runtime 2 no_accounts_envelope),
        [accounts_call sample_runtime (PStr (lit ''tok''))])"
proof -
  have none: "\<not> py_truthy PNone" by simp
  note found =
    get_adsets_account_fallback [OF none,
      where rt = sample_runtime
        and get_ad_accounts = "\<lambda>u a t. Inr (json_dumps sample_runtime sample_accounts)"
        and make_api_request = "\<lambda>r. Inr (PDict [(lit ''data'', PList [])])"
        and token = "PStr (lit ''tok'')" and limit = "PInt 10" and campaign_id = "PStr []",
      THEN conjunct2, THEN conjunct1, rule_format,
      of _ "[(lit ''data'',
             PList [PDict [(lit ''id'', PStr (lit ''act_7'')),
                           (lit ''name'', PStr [0xC11C, 0xC6B8, 0x20, 0x1F600]),
                           (lit ''balance'', PFloat 0x3FF8000000000000),
                           (lit ''age'', PInt 12)]]),
            (lit ''paging'', PDict [])]"
         "[(lit ''id'', PStr (lit ''act_7'')),
           (lit ''name'', PStr [0xC11C, 0xC6B8, 0x20, 0x1F600]),
           (lit ''balance'', PFloat 0x3FF8000000000000),
           (lit ''age'', PInt 12)]" "[]"
         "PStr (lit ''act_7'')"]
  note empty =
    get_adsets_account_fallback [OF none,
      where rt = sample_runtime
        and get_ad_accounts =
          "\<lambda>u a t. Inr (json_dumps sample_runtime (PDict [(lit ''data'', PList [])]))"
        and make_api_request = "\<lambda>r. Inr (PDict [(lit ''data'', PList [])])"
        and token = "PStr (lit ''tok'')" and limit = "PInt 10" and campaign_id = "PStr []",
      THEN conjunct2, THEN conjunct2, rule_format, of _ "[(lit ''data'', PList [])]"]
  show ?thesis
    using found empty loads_sample_accounts loads_no_account
    by (simp add: dict_get_def adsets_request_def sample_accounts_def)
qed

text \<open>
  C10. A call of \<^verbatim>\<open>get_adsets\<close> with a campaign id and no account id still calls
  \<^verbatim>\<open>get_ad_accounts\<close> first, and returns the envelope
  \<^verbatim>\<open>No account ID specified and no accounts found for user\<close>, with no request made, when
  the decoded answer lists no account. When an account is found, the request that follows
  is the campaign's, the same whatever the account's id is.
\<close>

theorem get_adsets_campaign_ignores_account:
  assumes "py_truthy campaign_id" and "\<not> py_truthy account_id"
  shows "(\<exists>rest. snd (get_adsets rt get_ad_accounts make_api_request token account_id limit
                      campaign_id)
                = accounts_call rt token # rest)
       \<and> (\<forall>accounts_json d.
            get_ad_accounts (lit ''me'') (json_dumps rt (PDict [(lit ''limit'', PInt 1)])) token
              = Inr accounts_json
            \<and> json_loads rt accounts_json = Some (PDict d)
            \<and> (case dict_get d (lit ''data'') of None \<Rightarrow> True | Some v \<Rightarrow> \<not> py_truthy v)
            \<longrightarrow> get_adsets rt get_ad_accounts make_api_request token account_id limit campaign_id
                = (Returns (json_dumps_indent rt 2 no_accounts_envelope),
                   [accounts_call rt token]))
       \<and> (\<forall>accounts_json d a others found.
            get_ad_accounts (lit ''me'') (json_dumps rt (PDict [(lit ''limit'', PInt 1)])) token
              = Inr accounts_json
            \<and> json_loads rt accounts_json = Some (PDict d)
            \<and> dict_get d (lit ''data'') = Some (PList (PDict a # others))
            \<and> dict_get a (lit ''id'') = Some found
            \<longrightarrow> snd (get_adsets rt get_ad_accounts make_api_request token account_id limit
                       campaign_id)
                  = [accounts_call rt token,
                     ApiRequest \<lparr>endpoint = py_str rt campaign_id @ lit ''/adsets'',
                       access_token = token,
                       params = [(lit ''fields'', PStr adsets_fields), (lit ''limit'', limit)],
                       http_method = None\<rparr>])"
proof (intro conjI allI impI)
  show "\<exists>rest. snd (get_adsets rt get_ad_accounts make_api_request token account_id limit
                     campaign_id)
              = accounts_call rt token # rest"
    using assms(2) by (rule get_adsets_lookup_first)
next
  fix accounts_json d
  assume "get_ad_accounts (lit ''me'') (json_dumps rt (PDict [(lit ''limit'', PInt 1)])) token
            = Inr accounts_json
          \<and> json_loads rt accounts_json = Some (PDict d)
          \<and> (case dict_get d (lit ''data'') of None \<Rightarrow> True | Some v \<Rightarrow> \<not> py_truthy v)"
  then show "get_adsets rt get_ad_accounts make_api_request token account_id limit campaign_id
             = (Returns (json_dumps_indent rt 2 no_accounts_envelope), [accounts_call rt token])"
    using assms(2) get_adsets_lookup_falsy by blast
next
  fix accounts_json d a others found
  assume "get_ad_accounts (lit ''me'') (json_dumps rt (PDict [(lit ''limit'', PInt 1)])) token
            = Inr accounts_json
          \<and> json_loads rt accounts_json = Some (PDict d)
          \<and> dict_get d (lit ''data'') = Some (PList (PDict a # others))
          \<and> dict_get a (lit ''id'') = Some found"
  then have "snd (get_adsets rt get_ad_accounts make_api_request token account_id limit
                    campaign_id)
             = [accounts_call rt token,
                ApiRequest (adsets_request rt token found limit campaign_id)]"
    using assms(2) get_adsets_lookup_found by blast
  then show "snd (get_adsets rt get_ad_accounts make_api_request token account_id limit
                    campaign_id)
             = [accounts_call rt token,
                ApiRequest \<lparr>endpoint = py_str rt campaign_id @ lit ''/adsets'',
                  access_token = token,
                  params = [(lit ''fields'', PStr adsets_fields), (lit ''limit'', limit)],
                  http_method = None\<rparr>]"
    using assms(1) by (simp add: adsets_request_def)
qed

theorem get_adsets_campaign_ignores_account_witness:
  "snd (get_adsets sample_runtime
          (\<lambda>u a t. Inr (json_dumps sample_runtime sample_accounts))
          (\<lambda>r. Inr (PDict [(lit ''data'', PList [])])) (PStr (lit ''tok'')) PNone (PInt 10)
          (PStr (lit ''23'')))
   = [accounts_call sample_runtime (PStr (lit ''tok'')),
      ApiRequest \<lparr>endpoint = lit ''23/adsets'', access_token = PStr (lit ''tok''),
        params = [(lit ''fields'', PStr adsets_fields), (lit ''limit'', PInt 10)],
        http_method = None\<rparr>]
   \<and> get_adsets sample_runtime
       (\<lambda>u a t. Inr (json_dumps sample_runtime (PDict [(lit ''data'', PList [])])))
       (\<lambda>r. Inr (PDict [(lit ''data'', PList [])])) (PStr (lit ''tok'')) PNone (PInt 10)
       (PStr (lit ''23''))
     = (Returns (json_dumps_indent sample_runtime 2 no_accounts_envelope),
        [accounts_call sample_runtime (PStr (lit ''tok''))])"
proof -
  have none: "\<not> py_truthy PNone" and camp: "py_truthy (PStr (lit ''23''))"
    by simp_all
  note found =
    get_adsets_campaign_ignores_account [OF camp none,
      where rt = sample_runtime
        and get_ad_accounts = "\<lambda>u a t. Inr (json_dumps sample_runtime sample_accounts)"
        and make_api_request = "\<lambda>r. Inr (PDict [(lit ''data'', PList [])])"
        and token = "PStr (lit ''tok'')" and limit = "PInt 10",
      THEN conjunct2, THEN conjunct2, rule_format,
      of _ "[(lit ''data'',
             PList [PDict [(lit ''id'', PStr (lit ''act_7'')),
                           (lit ''name'', PStr [0xC11C, 0xC6B8, 0x20, 0x1F600]),
                           (lit ''balance'', PFloat 0x3FF8000000000000),
                           (lit ''age'', PInt 12)]]),
            (lit ''paging'', PDict [])]"
         "[(lit ''id'', PStr (lit ''act_7'')),
           (lit ''name'', PStr [0xC11C, 0xC6B8, 0x20, 0x1F600]),
           (lit ''balance'', PFloat 0x3FF8000000000000),
           (lit ''age'', PInt 12)]" "[]"
         "PStr (lit ''act_7'')"]
  note empty =
    get_adsets_campaign_ignores_account [OF camp none,
      where rt = sample_runtime
        and get_ad_accounts =
          "\<lambda>u a t. Inr (json_dumps sample_runtime (PDict [(lit ''data'', PList [])]))"
        and make_api_request = "\<lambda>r. Inr (PDict [(lit ''data'', PList [])])"
        and token = "PStr (lit ''tok'')" and limit = "PInt 10",
      THEN conjunct2, THEN conjunct1, rule_format, of _ "[(lit ''data'', PList [])]"]
  show ?thesis
    using found empty loads_sample_accounts loads_no_account
    by (simp add: dict_get_def sample_accounts_def)
qed

section \<open>Exceptions of the dispatcher\<close>

text \<open>
  C4, as the code has it. When the dispatcher raises an instance of \<^verbatim>\<open>Exception\<close> in a
  call of \<^verbatim>\<open>create_adset\<close> or \<^verbatim>\<open>update_adset\<close>, the tool returns an envelope with exactly
  the keys \<^verbatim>\<open>error\<close>, \<^verbatim>\<open>details\<close> and \<^verbatim>\<open>params_sent\<close>: the tool's message, the text of the
  exception and the parameters of the request. When the dispatcher raises an exception
  that derives from \<^verbatim>\<open>BaseException\<close> only, the tool raises it to its caller.
\<close>

theorem write_tools_envelope_on_exception:
  "(let ps = create_params rt campaign_id name status daily_budget lifetime_budget targeting
               optimization_goal billing_event bid_amount bid_strategy start_time end_time;
        req = \<lparr>endpoint = py_str rt account_id @ lit ''/adsets'', access_token = token,
               params = ps, http_method = Some (lit ''POST'')\<rparr>;
        envelope = [(lit ''error'', PStr (lit ''Failed to create ad set'')),
                    (lit ''details'', PStr error_msg),
                    (lit ''params_sent'', PDict ps)]
    in (py_truthy account_id \<and> py_truthy campaign_id \<and> py_truthy name
          \<and> py_truthy optimization_goal \<and> py_truthy billing_event
          \<and> make_api_request req = Inl (Exception error_msg)
        \<longrightarrow> create_adset rt make_api_request account_id campaign_id name status daily_budget
              lifetime_budget targeting optimization_goal billing_event bid_amount
              bid_strategy start_time end_time token
            = (Returns (json_dumps_indent rt 2 (PDict envelope)), [ApiRequest req])
            \<and> dict_keys envelope = [lit ''error'', lit ''details'', lit ''params_sent''])
       \<and> (py_truthy account_id \<and> py_truthy campaign_id \<and> py_truthy name
            \<and> py_truthy optimization_goal \<and> py_truthy billing_event
            \<and> make_api_request req = Inl (BaseException error_msg)
          \<longrightarrow> create_adset rt make_api_request account_id campaign_id name status daily_budget
                lifetime_budget targeting optimization_goal billing_event bid_amount
                bid_strategy start_time end_time token
              = (Raises (Propagated (BaseException error_msg)), [ApiRequest req])))
   \<and> (let ps = update_params rt frequency_control_specs u_bid_strategy u_bid_amount u_status
                  u_targeting u_optimization_goal;
           req = \<lparr>endpoint = py_str rt adset_id, access_token = u_token,
                  params = ps, http_method = Some (lit ''POST'')\<rparr>;
           envelope = [(lit ''error'',
                        PStr (lit ''Failed to update ad set '' @ py_str rt adset_id)),
                       (lit ''details'', PStr u_error_msg),
                       (lit ''params_sent'', PDict ps)]
       in (py_truthy adset_id \<and> ps \<noteq> []
             \<and> u_make_api_request req = Inl (Exception u_error_msg)
           \<longrightarrow> update_adset rt u_make_api_request adset_id frequency_control_specs u_bid_strategy
                 u_bid_amount u_status u_targeting u_optimization_goal u_token
               = (Returns (json_dumps_indent rt 2 (PDict envelope)), [ApiRequest req])
               \<and> dict_keys envelope = [lit ''error'', lit ''details'', lit ''params_sent''])
          \<and> (py_truthy adset_id \<and> ps \<noteq> []
                \<and> u_make_api_request req = Inl (BaseException u_error_msg)
              \<longrightarrow> update_adset rt u_make_api_request adset_id frequency_control_specs
                    u_bid_strategy u_bid_amount u_status u_targeting u_optimization_goal u_token
                  = (Raises (Propagated (BaseException u_error_msg)), [ApiRequest req])))"
  by (simp add: create_adset_def update_adset_def dict_keys_def Let_def)

lemma create_demo_params:
  "create_params rt (PStr (lit ''23'')) (PStr (lit ''Spring'')) (PStr (lit ''PAUSED'')) PNone
     PNone PNone (PStr (lit ''REACH'')) (PStr (lit ''IMPRESSIONS'')) PNone PNone PNone PNone
   = [(lit ''name'', PStr (lit ''Spring'')), (lit ''campaign_id'', PStr (lit ''23'')),
      (lit ''status'', PStr (lit ''PAUSED'')), (lit ''optimization_goal'', PStr (lit ''REACH'')),
      (lit ''billing_event'', PStr (lit ''IMPRESSIONS'')),
      (lit ''targeting'', PStr (json_dumps rt default_targeting))]"
  by (simp add: create_params_def)

lemma update_demo_params:
  "update_params rt PNone PNone PNone (PStr (lit ''ACTIVE'')) PNone PNone
   = [(lit ''status'', PStr (lit ''ACTIVE''))]"
  by (simp add: update_params_def)

theorem write_tools_envelope_on_exception_witness:
  "create_adset sample_runtime (\<lambda>r. Inl (Exception (lit ''HTTP 400''))) (PStr (lit ''act_1''))
     (PStr (lit ''23'')) (PStr (lit ''Spring'')) (PStr (lit ''PAUSED'')) PNone PNone PNone
     (PStr (lit ''REACH'')) (PStr (lit ''IMPRESSIONS'')) PNone PNone PNone PNone
     (PStr (lit ''tok''))
   = (Returns (json_dumps_indent sample_runtime 2
        (PDict [(lit ''error'', PStr (lit ''Failed to create ad set'')),
                (lit ''details'', PStr (lit ''HTTP 400'')),
                (lit ''params_sent'',
                 PDict [(lit ''name'', PStr (lit ''Spring'')),
                        (lit ''campaign_id'', PStr (lit ''23'')),
                        (lit ''status'', PStr (lit ''PAUSED'')),
                        (lit ''optimization_goal'', PStr (lit ''REACH'')),
                        (lit ''billing_event'', PStr (lit ''IMPRESSIONS'')),
                        (lit ''targeting'',
                         PStr (json_dumps sample_runtime default_targeting))])])),
      [ApiRequest \<lparr>endpoint = lit ''act_1/adsets'', access_token = PStr (lit ''tok''),
         params = [(lit ''name'', PStr (lit ''Spring'')),
                   (lit ''campaign_id'', PStr (lit ''23'')),
                   (lit ''status'', PStr (lit ''PAUSED'')),
                   (lit ''optimization_goal'', PStr (lit ''REACH'')),
                   (lit ''billing_event'', PStr (lit ''IMPRESSIONS'')),
                   (lit ''targeting'', PStr (json_dumps sample_runtime default_targeting))],
         http_method = Some (lit ''POST'')\<rparr>])
   \<and> update_adset sample_runtime (\<lambda>r. Inl (Exception (lit ''HTTP 400''))) (PStr (lit ''120''))
       PNone PNone PNone (PStr (lit ''ACTIVE'')) PNone PNone (PStr (lit ''tok''))
     = (Returns (json_dumps_indent sample_runtime 2
          (PDict [(lit ''error'', PStr (lit ''Failed to update ad set 120'')),
                  (lit ''details'', PStr (lit ''HTTP 400'')),
                  (lit ''params_sent'', PDict [(lit ''status'', PStr (lit ''ACTIVE''))])])),
        [ApiRequest \<lparr>endpoint = lit ''120'', access_token = PStr (lit ''tok''),
           params = [(lit ''status'', PStr (lit ''ACTIVE''))],
           http_method = Some (lit ''POST'')\<rparr>])
   \<and> fst (create_adset sample_runtime (\<lambda>r. Inl (BaseException (lit ''interrupted'')))
           (PStr (lit ''act_1'')) (PStr (lit ''23'')) (PStr (lit ''Spring''))
           (PStr (lit ''PAUSED'')) PNone PNone PNone (PStr (lit ''REACH''))
           (PStr (lit ''IMPRESSIONS'')) PNone PNone PNone PNone (PStr (lit ''tok'')))
     = Raises (Propagated (BaseException (lit ''interrupted'')))
   \<and> fst (update_adset sample_runtime (\<lambda>r. Inl (BaseException (lit ''interrupted'')))
           (PStr (lit ''120'')) PNone PNone PNone (PStr (lit ''ACTIVE'')) PNone PNone
           (PStr (lit ''tok'')))
     = Raises (Propagated (BaseException (lit ''interrupted'')))"
proof -
  note caught =
    write_tools_envelope_on_exception
    [where rt = sample_runtime
       and account_id = "PStr (lit ''act_1'')" and campaign_id = "PStr (lit ''23'')"
       and name = "PStr (lit ''Spring'')"
       and status = "PStr (lit ''PAUSED'')" and daily_budget = PNone and lifetime_budget = PNone
       and targeting = PNone and optimization_goal = "PStr (lit ''REACH'')"
       and billing_event = "PStr (lit ''IMPRESSIONS'')" and bid_amount = PNone
       and bid_strategy = PNone
       and start_time = PNone and end_time = PNone and token = "PStr (lit ''tok'')"
       and error_msg = "lit ''HTTP 400''"
       and make_api_request = "\<lambda>r. Inl (Exception (lit ''HTTP 400''))"
       and adset_id = "PStr (lit ''120'')" and frequency_control_specs = PNone
       and u_bid_strategy = PNone
       and u_bid_amount = PNone and u_status = "PStr (lit ''ACTIVE'')" and u_targeting = PNone
       and u_optimization_goal = PNone and u_token = "PStr (lit ''tok'')"
       and u_error_msg = "lit ''HTTP 400''"
       and u_make_api_request = "\<lambda>r. Inl (Exception (lit ''HTTP 400''))"]
  note passed =
    write_tools_envelope_on_exception
    [where rt = sample_runtime
       and account_id = "PStr (lit ''act_1'')" and campaign_id = "PStr (lit ''23'')"
       and name = "PStr (lit ''Spring'')"
       and status = "PStr (lit ''PAUSED'')" and daily_budget = PNone and lifetime_budget = PNone
       and targeting = PNone and optimization_goal = "PStr (lit ''REACH'')"
       and billing_event = "PStr (lit ''IMPRESSIONS'')" and bid_amount = PNone
       and bid_strategy = PNone
       and start_time = PNone and end_time = PNone and token = "PStr (lit ''tok'')"
       and error_msg = "lit ''interrupted''"
       and make_api_request = "\<lambda>r. Inl (BaseException (lit ''interrupted''))"
       and adset_id = "PStr (lit ''120'')" and frequency_control_specs = PNone
       and u_bid_strategy = PNone
       and u_bid_amount = PNone and u_status = "PStr (lit ''ACTIVE'')" and u_targeting = PNone
       and u_optimization_goal = PNone and u_token = "PStr (lit ''tok'')"
       and u_error_msg = "lit ''interrupted''"
       and u_make_api_request = "\<lambda>r. Inl (BaseException (lit ''interrupted''))"]
  show ?thesis
    using caught passed by (simp add: create_demo_params update_demo_params Let_def)
qed

text \<open>
  C4, as the specification has it, fails: a cancellation of the request
  (\<^verbatim>\<open>asyncio.CancelledError\<close>, whose \<^verbatim>\<open>str\<close> is empty) is no instance of \<^verbatim>\<open>Exception\<close>,
  and both tools let it through.
\<close>

theorem write_tools_cancellation_counterexample:
  "create_adset sample_runtime (\<lambda>r. Inl (BaseException [])) (PStr (lit ''act_1''))
     (PStr (lit ''23'')) (PStr (lit ''Spring'')) (PStr (lit ''PAUSED'')) PNone PNone PNone
     (PStr (lit ''REACH'')) (PStr (lit ''IMPRESSIONS'')) PNone PNone PNone PNone
     (PStr (lit ''tok''))
   = (Raises (Propagated (BaseException [])),
      [ApiRequest \<lparr>endpoint = lit ''act_1/adsets'', access_token = PStr (lit ''tok''),
         params = [(lit ''name'', PStr (lit ''Spring'')),
                   (lit ''campaign_id'', PStr (lit ''23'')),
                   (lit ''status'', PStr (lit ''PAUSED'')),
                   (lit ''optimization_goal'', PStr (lit ''REACH'')),
                   (lit ''billing_event'', PStr (lit ''IMPRESSIONS'')),
                   (lit ''targeting'', PStr (json_dumps sample_runtime default_targeting))],
         http_method = Some (lit ''POST'')\<rparr>])
   \<and> update_adset sample_runtime (\<lambda>r. Inl (BaseException [])) (PStr (lit ''120''))
       PNone PNone PNone (PStr (lit ''ACTIVE'')) PNone PNone (PStr (lit ''tok''))
     = (Raises (Propagated (BaseException [])),
        [ApiRequest \<lparr>endpoint = lit ''120'', access_token = PStr (lit ''tok''),
           params = [(lit ''status'', PStr (lit ''ACTIVE''))],
           http_method = Some (lit ''POST'')\<rparr>])"
  by (simp add: create_adset_def update_adset_def create_demo_params update_demo_params)

section \<open>Successful answers\<close>

lemma get_adsets_success:
  assumes "ApiRequest req \<in> set (snd (get_adsets rt get_ad_accounts make_api_request token
             account_id limit campaign_id))"
    and "make_api_request req = Inr data"
  shows "fst (get_adsets rt get_ad_accounts make_api_request token account_id limit campaign_id)
         = Returns (json_dumps_indent rt 2 data)"
  using assms
  by (auto simp: get_adsets_def Let_def split: sum.splits option.splits prod.splits if_splits)

lemma create_adset_success:
  assumes "ApiRequest req \<in> set (snd (create_adset rt make_api_request account_id campaign_id
             name status daily_budget lifetime_budget targeting optimization_goal billing_event
             bid_amount bid_strategy start_time end_time token))"
    and "make_api_request req = Inr data"
  shows "fst (create_adset rt make_api_request account_id campaign_id name status daily_budget
           lifetime_budget targeting optimization_goal billing_event bid_amount bid_strategy
           start_time end_time token)
         = Returns (json_dumps_indent rt 2 data)"
  using assms
  by (auto simp: create_adset_def Let_def split: sum.splits raised.splits if_splits)

lemma update_adset_success:
  assumes "ApiRequest req \<in> set (snd (update_adset rt make_api_request adset_id
             frequency_control_specs bid_strategy bid_amount status targeting optimization_goal
             token))"
    and "make_api_request req = Inr data"
  shows "fst (update_adset rt make_api_request adset_id frequency_control_specs bid_strategy
           bid_amount status targeting optimization_goal token)
         = Returns (json_dumps_indent rt 2 data)"
  using assms
  by (auto simp: update_adset_def Let_def split: sum.splits raised.splits if_splits)

lemma get_adset_details_success:
  assumes "ApiRequest req \<in> set (snd (get_adset_details rt make_api_request token adset_id))"
    and "make_api_request req = Inr (PDict d)"
  shows "fst (get_adset_details rt make_api_request token adset_id)
         = Returns (json_dumps_indent rt 2
             (if lit ''frequency_control_specs'' \<in> set (dict_keys d) then PDict d
              else PDict (dict_set d (lit ''_meta'')
                     (PDict [(lit ''note'', PStr no_frequency_note)]))))"
  using assms
  by (auto simp: get_adset_details_def details_result_def Let_def split: sum.splits if_splits)

text \<open>
  C6, as the code has it. When the dispatcher answers a request of \<^verbatim>\<open>get_adsets\<close>,
  \<^verbatim>\<open>create_adset\<close> or \<^verbatim>\<open>update_adset\<close>, the tool returns exactly the answer, pretty-printed.
  \<^verbatim>\<open>get_adset_details\<close> returns a dictionary answer as it is when it has the key
  \<^verbatim>\<open>frequency_control_specs\<close>; when it has not, the tool sets the key \<^verbatim>\<open>_meta\<close> of the
  answer to a note before printing it.
\<close>

theorem tools_return_payload:
  "(ApiRequest req \<in> set (snd (get_adsets rt get_ad_accounts make_api_request token account_id
        limit campaign_id))
      \<and> make_api_request req = Inr data
    \<longrightarrow> fst (get_adsets rt get_ad_accounts make_api_request token account_id limit campaign_id)
        = Returns (json_dumps_indent rt 2 data))
   \<and> (ApiRequest c_req \<in> set (snd (create_adset rt c_make_api_request c_account_id c_campaign_id
           name status daily_budget lifetime_budget targeting optimization_goal billing_event
           bid_amount bid_strategy start_time end_time c_token))
         \<and> c_make_api_request c_req = Inr c_data
       \<longrightarrow> fst (create_adset rt c_make_api_request c_account_id c_campaign_id name status
                daily_budget lifetime_budget targeting optimization_goal billing_event
                bid_amount bid_strategy start_time end_time c_token)
           = Returns (json_dumps_indent rt 2 c_data))
   \<and> (ApiRequest u_req \<in> set (snd (update_adset rt u_make_api_request adset_id
           frequency_control_specs u_bid_strategy u_bid_amount u_status u_targeting
           u_optimization_goal u_token))
         \<and> u_make_api_request u_req = Inr u_data
       \<longrightarrow> fst (update_adset rt u_make_api_request adset_id frequency_control_specs
                u_bid_strategy u_bid_amount u_status u_targeting u_optimization_goal u_token)
           = Returns (json_dumps_indent rt 2 u_data))
   \<and> (ApiRequest d_req \<in> set (snd (get_adset_details rt d_make_api_request d_token d_adset_id))
         \<and> d_make_api_request d_req = Inr (PDict d)
       \<longrightarrow> fst (get_adset_details rt d_make_api_request d_token d_adset_id)
           = Returns (json_dumps_indent rt 2
               (if lit ''frequency_control_specs'' \<in> set (dict_keys d) then PDict d
                else PDict (dict_set d (lit ''_meta'')
                       (PDict [(lit ''note'', PStr no_frequency_note)])))))"
proof (intro conjI impI; elim conjE)
  show "fst (get_adsets rt get_ad_accounts make_api_request token account_id limit campaign_id)
        = Returns (json_dumps_indent rt 2 data)"
    if "ApiRequest req \<in> set (snd (get_adsets rt get_ad_accounts make_api_request token
          account_id limit campaign_id))" and "make_api_request req = Inr data"
    using that by (rule get_adsets_success)
  show "fst (create_adset rt c_make_api_request c_account_id c_campaign_id name status
                daily_budget lifetime_budget targeting optimization_goal billing_event
                bid_amount bid_strategy start_time end_time c_token)
           = Returns (json_dumps_indent rt 2 c_data)"
    if "ApiRequest c_req \<in> set (snd (create_adset rt c_make_api_request c_account_id
           c_campaign_id name status daily_budget lifetime_budget targeting optimization_goal
           billing_event bid_amount bid_strategy start_time end_time c_token))"
      and "c_make_api_request c_req = Inr c_data"
    using that by (rule create_adset_success)
  show "fst (update_adset rt u_make_api_request adset_id frequency_control_specs u_bid_strategy
                u_bid_amount u_status u_targeting u_optimization_goal u_token)
           = Returns (json_dumps_indent rt 2 u_data)"
    if "ApiRequest u_req \<in> set (snd (update_adset rt u_make_api_request adset_id
           frequency_control_specs u_bid_strategy u_bid_amount u_status u_targeting
           u_optimization_goal u_token))"
      and "u_make_api_request u_req = Inr u_data"
    using that by (rule update_adset_success)
  show "fst (get_adset_details rt d_make_api_request d_token d_adset_id)
           = Returns (json_dumps_indent rt 2
               (if lit ''frequency_control_specs'' \<in> set (dict_keys d) then PDict d
                else PDict (dict_set d (lit ''_meta'')
                       (PDict [(lit ''note'', PStr no_frequency_note)]))))"
    if "ApiRequest d_req \<in> set (snd (get_adset_details rt d_make_api_request d_token
          d_adset_id))"
      and "d_make_api_request d_req = Inr (PDict d)"
    using that by (rule get_adset_details_success)
qed

lemma details_demo_trace:
  "snd (get_adset_details rt
          (\<lambda>r. Inr (PDict [(lit ''id'', PStr (lit ''120'')),
                           (lit ''frequency_control_specs'', PList [])]))
          (PStr (lit ''tok'')) (PStr (lit ''120'')))
   = [ApiRequest \<lparr>endpoint = lit ''120'', access_token = PStr (lit ''tok''),
        params = [(lit ''fields'', PStr adset_details_fields)], http_method = None\<rparr>]"
  by (simp add: get_adset_details_def)

lemma adsets_demo_trace:
  "snd (get_adsets rt (\<lambda>u a t. Inl (Exception (lit ''unused'')))
          (\<lambda>r. Inr (PDict [(lit ''data'', PList [])]))
          (PStr (lit ''tok'')) (PStr (lit ''act_1'')) (PInt 10) (PStr []))
   = [ApiRequest \<lparr>endpoint = lit ''act_1/adsets'', access_token = PStr (lit ''tok''),
        params = [(lit ''fields'', PStr adsets_fields), (lit ''limit'', PInt 10)],
        http_method = None\<rparr>]"
  by (simp add: get_adsets_def adsets_request_def)

lemma update_demo_trace:
  "snd (update_adset rt (\<lambda>r. Inr (PDict [(lit ''success'', PBool True)])) (PStr (lit ''120''))
          PNone PNone PNone (PStr (lit ''ACTIVE'')) PNone PNone (PStr (lit ''tok'')))
   = [ApiRequest \<lparr>endpoint = lit ''120'', access_token = PStr (lit ''tok''),
        params = [(lit ''status'', PStr (lit ''ACTIVE''))],
        http_method = Some (lit ''POST'')\<rparr>]"
  by (simp add: update_adset_def update_demo_params)

theorem tools_return_payload_witness:
  "fst (get_adsets sample_runtime (\<lambda>u a t. Inl (Exception (lit ''unused'')))
          (\<lambda>r. Inr (PDict [(lit ''data'', PList [])]))
          (PStr (lit ''tok'')) (PStr (lit ''act_1'')) (PInt 10) (PStr []))
   = Returns (json_dumps_indent sample_runtime 2 (PDict [(lit ''data'', PList [])]))
   \<and> fst (update_adset sample_runtime (\<lambda>r. Inr (PDict [(lit ''success'', PBool True)]))
           (PStr (lit ''120'')) PNone PNone PNone (PStr (lit ''ACTIVE'')) PNone PNone
           (PStr (lit ''tok'')))
     = Returns (json_dumps_indent sample_runtime 2 (PDict [(lit ''success'', PBool True)]))
   \<and> fst (get_adset_details sample_runtime
           (\<lambda>r. Inr (PDict [(lit ''id'', PStr (lit ''120'')),
                            (lit ''frequency_control_specs'', PList [])]))
           (PStr (lit ''tok'')) (PStr (lit ''120'')))
     = Returns (json_dumps_indent sample_runtime 2
         (PDict [(lit ''id'', PStr (lit ''120'')), (lit ''frequency_control_specs'', PList [])]))"
proof -
  note all = tools_return_payload
    [where rt = sample_runtime
       and get_ad_accounts = "\<lambda>u a t. Inl (Exception (lit ''unused''))"
       and make_api_request = "\<lambda>r. Inr (PDict [(lit ''data'', PList [])])"
       and token = "PStr (lit ''tok'')" and account_id = "PStr (lit ''act_1'')"
       and limit = "PInt 10"
       and campaign_id = "PStr []" and data = "PDict [(lit ''data'', PList [])]"
       and req = "\<lparr>endpoint = lit ''act_1/adsets'', access_token = PStr (lit ''tok''),
                   params = [(lit ''fields'', PStr adsets_fields), (lit ''limit'', PInt 10)],
                   http_method = None\<rparr>"
       and u_make_api_request = "\<lambda>r. Inr (PDict [(lit ''success'', PBool True)])"
       and adset_id = "PStr (lit ''120'')" and frequency_control_specs = PNone
       and u_bid_strategy = PNone
       and u_bid_amount = PNone and u_status = "PStr (lit ''ACTIVE'')" and u_targeting = PNone
       and u_optimization_goal = PNone and u_token = "PStr (lit ''tok'')"
       and u_data = "PDict [(lit ''success'', PBool True)]"
       and u_req = "\<lparr>endpoint = lit ''120'', access_token = PStr (lit ''tok''),
                     params = [(lit ''status'', PStr (lit ''ACTIVE''))],
                     http_method = Some (lit ''POST'')\<rparr>"
       and d_make_api_request =
         "\<lambda>r. Inr (PDict [(lit ''id'', PStr (lit ''120'')),
                          (lit ''frequency_control_specs'', PList [])])"
       and d_token = "PStr (lit ''tok'')" and d_adset_id = "PStr (lit ''120'')"
       and d = "[(lit ''id'', PStr (lit ''120'')), (lit ''frequency_control_specs'', PList [])]"
       and d_req = "\<lparr>endpoint = lit ''120'', access_token = PStr (lit ''tok''),
                     params = [(lit ''fields'', PStr adset_details_fields)],
                     http_method = None\<rparr>"]
  show ?thesis
    using all by (simp add: adsets_demo_trace update_demo_trace details_demo_trace dict_keys_def)
qed

text \<open>
  C6, as the specification has it, fails for \<^verbatim>\<open>get_adset_details\<close>: an answer without
  \<^verbatim>\<open>frequency_control_specs\<close> is returned with the added \<^verbatim>\<open>_meta\<close> entry.
\<close>

theorem details_adds_meta_counterexample:
  "fst (get_adset_details sample_runtime (\<lambda>r. Inr (PDict [(lit ''id'', PStr (lit ''120''))]))
          (PStr (lit ''tok'')) (PStr (lit ''120'')))
   = Returns (json_dumps_indent sample_runtime 2
       (PDict [(lit ''id'', PStr (lit ''120'')),
               (lit ''_meta'', PDict [(lit ''note'', PStr no_frequency_note)])]))
   \<and> json_dumps_indent sample_runtime 2
       (PDict [(lit ''id'', PStr (lit ''120'')),
               (lit ''_meta'', PDict [(lit ''note'', PStr no_frequency_note)])])
     \<noteq> json_dumps_indent sample_runtime 2 (PDict [(lit ''id'', PStr (lit ''120''))])"
proof
  show "fst (get_adset_details sample_runtime
               (\<lambda>r. Inr (PDict [(lit ''id'', PStr (lit ''120''))]))
               (PStr (lit ''tok'')) (PStr (lit ''120'')))
   = Returns (json_dumps_indent sample_runtime 2
       (PDict [(lit ''id'', PStr (lit ''120'')),
               (lit ''_meta'', PDict [(lit ''note'', PStr no_frequency_note)])]))"
    by (simp add: get_adset_details_def details_result_def dict_keys_def)
  show "json_dumps_indent sample_runtime 2
       (PDict [(lit ''id'', PStr (lit ''120'')),
               (lit ''_meta'', PDict [(lit ''note'', PStr no_frequency_note)])])
     \<noteq> json_dumps_indent sample_runtime 2 (PDict [(lit ''id'', PStr (lit ''120''))])"
    by (simp add: json_dumps_indent_def encode_basestring_ascii_def escape_char_def
          item_separator_def newline_indent_def char_defs lit_def)
qed

section \<open>Structured parameters of the write tools\<close>

lemma create_params_targeting:
  "dict_get (create_params rt campaign_id name status daily_budget lifetime_budget targeting
       optimization_goal billing_event bid_amount bid_strategy start_time end_time)
     (lit ''targeting'')
   = Some (PStr (json_dumps rt (if py_truthy targeting then targeting else default_targeting)))"
  by (simp add: create_params_def Let_def dict_get_dict_set) (simp add: dict_get_def)

lemma update_params_targeting:
  assumes "is_dict targeting"
  shows "dict_get (update_params rt frequency_control_specs bid_strategy bid_amount status
           targeting optimization_goal) (lit ''targeting'')
         = Some (PStr (json_dumps rt targeting))"
  using assms by (cases targeting) (simp_all add: update_params_def Let_def dict_get_dict_set)

lemma update_params_targeting_other:
  assumes "targeting \<noteq> PNone" and "\<not> is_dict targeting"
  shows "dict_get (update_params rt frequency_control_specs bid_strategy bid_amount status
           targeting optimization_goal) (lit ''targeting'') = Some targeting"
  using assms by (simp add: update_params_def Let_def dict_get_dict_set)

lemma update_params_frequency:
  assumes "frequency_control_specs \<noteq> PNone"
  shows "dict_get (update_params rt frequency_control_specs bid_strategy bid_amount status
           targeting optimization_goal) (lit ''frequency_control_specs'')
         = Some frequency_control_specs"
  using assms by (simp add: update_params_def Let_def dict_get_dict_set) (simp add: dict_get_def)

lemma update_params_not_empty:
  assumes "frequency_control_specs \<noteq> PNone \<or> targeting \<noteq> PNone"
  shows "update_params rt frequency_control_specs bid_strategy bid_amount status targeting
           optimization_goal \<noteq> []"
  using assms by (auto simp: update_params_def Let_def dict_set_not_empty)

lemma update_adset_trace:
  assumes "py_truthy adset_id"
    and "update_params rt frequency_control_specs bid_strategy bid_amount status targeting
           optimization_goal \<noteq> []"
  shows "snd (update_adset rt make_api_request adset_id frequency_control_specs bid_strategy
                bid_amount status targeting optimization_goal token)
         = [ApiRequest \<lparr>endpoint = py_str rt adset_id, access_token = token,
              params = update_params rt frequency_control_specs bid_strategy bid_amount status
                         targeting optimization_goal,
              http_method = Some (lit ''POST'')\<rparr>]"
  using assms by (simp add: update_adset_def Let_def split: sum.splits raised.splits)

lemma create_adset_trace:
  assumes "py_truthy account_id" and "py_truthy campaign_id" and "py_truthy name"
    and "py_truthy optimization_goal" and "py_truthy billing_event"
  shows "snd (create_adset rt make_api_request account_id campaign_id name status daily_budget
                lifetime_budget targeting optimization_goal billing_event bid_amount
                bid_strategy start_time end_time token)
         = [ApiRequest \<lparr>endpoint = py_str rt account_id @ lit ''/adsets'', access_token = token,
              params = create_params rt campaign_id name status daily_budget lifetime_budget
                         targeting optimization_goal billing_event bid_amount bid_strategy
                         start_time end_time,
              http_method = Some (lit ''POST'')\<rparr>]"
  using assms by (simp add: create_adset_def Let_def split: sum.splits raised.splits)

text \<open>
  C2, as the code has it. \<^verbatim>\<open>create_adset\<close> sends the targeting (the argument, or the
  default when the argument tests false) as its \<^verbatim>\<open>json.dumps\<close> string. \<^verbatim>\<open>update_adset\<close>
  sends a targeting dictionary as its \<^verbatim>\<open>json.dumps\<close> string and any other targeting
  that is not \<^verbatim>\<open>None\<close> as the value it was given; and it sends
  \<^verbatim>\<open>frequency_control_specs\<close>, when it is not \<^verbatim>\<open>None\<close>, as the value it was given,
  whatever the targeting is.
\<close>

theorem targeting_sent_as_json_string:
  "(py_truthy account_id \<and> py_truthy campaign_id \<and> py_truthy name
      \<and> py_truthy optimization_goal \<and> py_truthy billing_event
    \<longrightarrow> (let ps = create_params rt campaign_id name status daily_budget lifetime_budget
                    targeting optimization_goal billing_event bid_amount bid_strategy
                    start_time end_time
         in snd (create_adset rt make_api_request account_id campaign_id name status
                   daily_budget lifetime_budget targeting optimization_goal billing_event
                   bid_amount bid_strategy start_time end_time token)
            = [ApiRequest \<lparr>endpoint = py_str rt account_id @ lit ''/adsets'',
                 access_token = token, params = ps, http_method = Some (lit ''POST'')\<rparr>]
            \<and> dict_get ps (lit ''targeting'')
                = Some (PStr (json_dumps rt
                    (if py_truthy targeting then targeting else default_targeting)))))
   \<and> (let ps = update_params rt frequency_control_specs u_bid_strategy u_bid_amount u_status
                  u_targeting u_optimization_goal;
           sent = [ApiRequest \<lparr>endpoint = py_str rt adset_id, access_token = u_token,
                     params = ps, http_method = Some (lit ''POST'')\<rparr>];
           trace = snd (update_adset rt u_make_api_request adset_id frequency_control_specs
                          u_bid_strategy u_bid_amount u_status u_targeting u_optimization_goal
                          u_token)
       in (py_truthy adset_id \<and> is_dict u_targeting
           \<longrightarrow> trace = sent
               \<and> dict_get ps (lit ''targeting'') = Some (PStr (json_dumps rt u_targeting)))
          \<and> (py_truthy adset_id \<and> u_targeting \<noteq> PNone \<and> \<not> is_dict u_targeting
              \<longrightarrow> trace = sent \<and> dict_get ps (lit ''targeting'') = Some u_targeting)
          \<and> (py_truthy adset_id \<and> frequency_control_specs \<noteq> PNone
              \<longrightarrow> trace = sent
                  \<and> dict_get ps (lit ''frequency_control_specs'')
                      = Some frequency_control_specs))"
proof (intro conjI)
  show "py_truthy account_id \<and> py_truthy campaign_id \<and> py_truthy name
      \<and> py_truthy optimization_goal \<and> py_truthy billing_event
    \<longrightarrow> (let ps = create_params rt campaign_id name status daily_budget lifetime_budget
                    targeting optimization_goal billing_event bid_amount bid_strategy
                    start_time end_time
         in snd (create_adset rt make_api_request account_id campaign_id name status
                   daily_budget lifetime_budget targeting optimization_goal billing_event
                   bid_amount bid_strategy start_time end_time token)
            = [ApiRequest \<lparr>endpoint = py_str rt account_id @ lit ''/adsets'',
                 access_token = token, params = ps, http_method = Some (lit ''POST'')\<rparr>]
            \<and> dict_get ps (lit ''targeting'')
                = Some (PStr (json_dumps rt
                    (if py_truthy targeting then targeting else default_targeting))))"
    unfolding Let_def using create_adset_trace create_params_targeting by simp
next
  let ?ps = "update_params rt frequency_control_specs u_bid_strategy u_bid_amount u_status
               u_targeting u_optimization_goal"
  have dict: "is_dict u_targeting \<Longrightarrow> u_targeting \<noteq> PNone"
    by (cases u_targeting) simp_all
  have trace: "snd (update_adset rt u_make_api_request adset_id frequency_control_specs
                      u_bid_strategy u_bid_amount u_status u_targeting u_optimization_goal
                      u_token)
               = [ApiRequest \<lparr>endpoint = py_str rt adset_id, access_token = u_token,
                    params = ?ps, http_method = Some (lit ''POST'')\<rparr>]"
    if "py_truthy adset_id" and "frequency_control_specs \<noteq> PNone \<or> u_targeting \<noteq> PNone"
    using that(1) update_params_not_empty [OF that(2)] by (rule update_adset_trace)
  show "let ps = ?ps;
            sent = [ApiRequest \<lparr>endpoint = py_str rt adset_id, access_token = u_token,
                      params = ps, http_method = Some (lit ''POST'')\<rparr>];
            trace = snd (update_adset rt u_make_api_request adset_id frequency_control_specs
                           u_bid_strategy u_bid_amount u_status u_targeting u_optimization_goal
                           u_token)
        in (py_truthy adset_id \<and> is_dict u_targeting
            \<longrightarrow> trace = sent
                \<and> dict_get ps (lit ''targeting'') = Some (PStr (json_dumps rt u_targeting)))
           \<and> (py_truthy adset_id \<and> u_targeting \<noteq> PNone \<and> \<not> is_dict u_targeting
               \<longrightarrow> trace = sent \<and> dict_get ps (lit ''targeting'') = Some u_targeting)
           \<and> (py_truthy adset_id \<and> frequency_control_specs \<noteq> PNone
               \<longrightarrow> trace = sent
                   \<and> dict_get ps (lit ''frequency_control_specs'')
                       = Some frequency_control_specs)"
    unfolding Let_def
  proof (intro conjI impI; elim conjE)
    show "snd (update_adset rt u_make_api_request adset_id frequency_control_specs
                 u_bid_strategy u_bid_amount u_status u_targeting u_optimization_goal u_token)
          = [ApiRequest \<lparr>endpoint = py_str rt adset_id, access_token = u_token,
               params = ?ps, http_method = Some (lit ''POST'')\<rparr>]"
      if "py_truthy adset_id" and "is_dict u_targeting"
      using that dict by (intro trace) simp_all
    show "dict_get ?ps (lit ''targeting'') = Some (PStr (json_dumps rt u_targeting))"
      if "is_dict u_targeting"
      using that by (rule update_params_targeting)
    show "snd (update_adset rt u_make_api_request adset_id frequency_control_specs
                 u_bid_strategy u_bid_amount u_status u_targeting u_optimization_goal u_token)
          = [ApiRequest \<lparr>endpoint = py_str rt adset_id, access_token = u_token,
               params = ?ps, http_method = Some (lit ''POST'')\<rparr>]"
      if "py_truthy adset_id" and "u_targeting \<noteq> PNone"
      using that by (intro trace) simp_all
    show "dict_get ?ps (lit ''targeting'') = Some u_targeting"
      if "u_targeting \<noteq> PNone" and "\<not> is_dict u_targeting"
      using that by (rule update_params_targeting_other)
    show "snd (update_adset rt u_make_api_request adset_id frequency_control_specs
                 u_bid_strategy u_bid_amount u_status u_targeting u_optimization_goal u_token)
          = [ApiRequest \<lparr>endpoint = py_str rt adset_id, access_token = u_token,
               params = ?ps, http_method = Some (lit ''POST'')\<rparr>]"
      if "py_truthy adset_id" and "frequency_control_specs \<noteq> PNone"
      using that by (intro trace) simp_all
    show "dict_get ?ps (lit ''frequency_control_specs'') = Some frequency_control_specs"
      if "frequency_control_specs \<noteq> PNone"
      using that by (rule update_params_frequency)
  qed
qed

theorem targeting_sent_as_json_string_witness:
  "dict_get (create_params sample_runtime (PStr (lit ''23'')) (PStr (lit ''Spring''))
               (PStr (lit ''PAUSED'')) PNone PNone PNone (PStr (lit ''REACH''))
               (PStr (lit ''IMPRESSIONS'')) PNone PNone PNone PNone) (lit ''targeting'')
   = Some (PStr (json_dumps sample_runtime default_targeting))
   \<and> dict_get (update_params sample_runtime sample_specs PNone PNone PNone
                 (PDict [(lit ''age_min'', PInt 21)]) PNone) (lit ''targeting'')
     = Some (PStr (json_dumps sample_runtime (PDict [(lit ''age_min'', PInt 21)])))
   \<and> dict_get (update_params sample_runtime PNone PNone PNone PNone
                 (PList [PStr (lit ''US'')]) PNone) (lit ''targeting'')
     = Some (PList [PStr (lit ''US'')])
   \<and> snd (update_adset sample_runtime (\<lambda>r. Inr (PDict [(lit ''success'', PBool True)]))
            (PStr (lit ''120'')) sample_specs PNone PNone PNone PNone PNone (PStr (lit ''tok'')))
     = [ApiRequest \<lparr>endpoint = lit ''120'', access_token = PStr (lit ''tok''),
          params = update_params sample_runtime sample_specs PNone PNone PNone PNone PNone,
          http_method = Some (lit ''POST'')\<rparr>]
   \<and> dict_get (update_params sample_runtime sample_specs PNone PNone PNone PNone PNone)
       (lit ''frequency_control_specs'')
     = Some sample_specs"
proof -
  note dict = targeting_sent_as_json_string
    [where rt = sample_runtime
       and account_id = "PStr (lit ''act_1'')" and campaign_id = "PStr (lit ''23'')"
       and name = "PStr (lit ''Spring'')"
       and status = "PStr (lit ''PAUSED'')" and daily_budget = PNone and lifetime_budget = PNone
       and targeting = PNone and optimization_goal = "PStr (lit ''REACH'')"
       and billing_event = "PStr (lit ''IMPRESSIONS'')" and bid_amount = PNone
       and bid_strategy = PNone
       and start_time = PNone and end_time = PNone and token = "PStr (lit ''tok'')"
       and make_api_request = "\<lambda>r. Inr (PDict [(lit ''id'', PStr (lit ''9''))])"
       and adset_id = "PStr (lit ''120'')"
       and frequency_control_specs = sample_specs
       and u_bid_strategy = PNone and u_bid_amount = PNone and u_status = PNone
       and u_targeting = "PDict [(lit ''age_min'', PInt 21)]" and u_optimization_goal = PNone
       and u_token = "PStr (lit ''tok'')"
       and u_make_api_request = "\<lambda>r. Inr (PDict [(lit ''success'', PBool True)])"]
  note other = targeting_sent_as_json_string
    [where rt = sample_runtime
       and adset_id = "PStr (lit ''120'')"
       and frequency_control_specs = PNone
       and u_bid_strategy = PNone and u_bid_amount = PNone and u_status = PNone
       and u_targeting = "PList [PStr (lit ''US'')]" and u_optimization_goal = PNone
       and u_token = "PStr (lit ''tok'')"
       and u_make_api_request = "\<lambda>r. Inr (PDict [(lit ''success'', PBool True)])",
     THEN conjunct2]
  note specs = targeting_sent_as_json_string
    [where rt = sample_runtime
       and adset_id = "PStr (lit ''120'')"
       and frequency_control_specs = sample_specs
       and u_bid_strategy = PNone and u_bid_amount = PNone and u_status = PNone
       and u_targeting = PNone and u_optimization_goal = PNone
       and u_token = "PStr (lit ''tok'')"
       and u_make_api_request = "\<lambda>r. Inr (PDict [(lit ''success'', PBool True)])",
     THEN conjunct2]
  have s: "sample_specs \<noteq> PNone"
    by (simp add: sample_specs_def)
  show ?thesis
    using dict other specs s by (simp add: Let_def)
qed

text \<open>
  C2, as the specification has it, fails: \<^verbatim>\<open>update_adset\<close> hands the list of
  \<^verbatim>\<open>frequency_control_specs\<close> to the dispatcher as a list, not as a string.
\<close>

theorem update_adset_native_list_counterexample:
  "snd (update_adset sample_runtime (\<lambda>r. Inr (PDict [(lit ''success'', PBool True)]))
          (PStr (lit ''120''))
          (PList [PDict [(lit ''event'', PStr (lit ''IMPRESSIONS'')),
                         (lit ''interval_days'', PInt 7), (lit ''max_frequency'', PInt 3)]])
          PNone PNone PNone PNone PNone (PStr (lit ''tok'')))
   = [ApiRequest \<lparr>endpoint = lit ''120'', access_token = PStr (lit ''tok''),
        params = [(lit ''frequency_control_specs'',
                   PList [PDict [(lit ''event'', PStr (lit ''IMPRESSIONS'')),
                                 (lit ''interval_days'', PInt 7),
                                 (lit ''max_frequency'', PInt 3)]])],
        http_method = Some (lit ''POST'')\<rparr>]
   \<and> \<not> is_str (PList [PDict [(lit ''event'', PStr (lit ''IMPRESSIONS'')),
                               (lit ''interval_days'', PInt 7),
                               (lit ''max_frequency'', PInt 3)]])"
  by (simp add: update_adset_def update_params_def)

section \<open>The bypass mode\<close>

text \<open>
  C8. In bypass mode \<^verbatim>\<open>get_access_token\<close> returns the sentinel
  \<^verbatim>\<open>MOCK_ACCESS_TOKEN_BYPASS_12345\<close> and leaves the store as it is, whatever
  \<^verbatim>\<open>force_refresh\<close> is; a call without and a call with \<^verbatim>\<open>force_refresh\<close> return the same
  value.
\<close>

theorem bypass_token_is_sentinel:
  "get_access_token True acquired now held force_refresh
     = (Inr ''MOCK_ACCESS_TOKEN_BYPASS_12345'', held)
   \<and> fst (get_access_token True acquired now held False)
     = fst (get_access_token True acquired' now' held' True)"
  by (simp add: get_access_token_def mock_access_token_def)

section \<open>Targeting specifications through \<^verbatim>\<open>json\<close>\<close>






text \<open>What \<^verbatim>\<open>update_adset\<close> sends for such a targeting dictionary decodes to that dictionary.\<close>

lemma sent_targeting_decodes:
  assumes "json_exact rt (PDict targeting)"
  shows "\<exists>s. dict_get (update_params rt frequency_control_specs bid_strategy bid_amount status
                (PDict targeting) optimization_goal) (lit ''targeting'') = Some (PStr s)
             \<and> json_loads rt s = Some (PDict targeting)"
  using loads_dumps [OF assms] update_params_targeting [of "PDict targeting"] by simp

end
